theory Spec2Isabelle
  imports Complex_Main
begin

section \<open>Lookout Gallery: the thumbnail generator (thumbnail.py)\<close>

text \<open>
  A shallow embedding of \<^verbatim>\<open>custom_components/lookout_gallery/thumbnail.py\<close> and of the
  constants of \<^verbatim>\<open>const.py\<close> it uses. Python strings are modelled as \<open>string\<close>
  (lists of 8-bit characters, read as ASCII text), so \<^verbatim>\<open>str.encode()\<close> is the identity.
  The operating system (file existence, modification times, directory walks, directory
  creation, subprocesses) and \<^verbatim>\<open>hashlib.md5\<close> are not code of the repository: they are
  parameters of the model, collected in the record \<open>os\<close> over an abstract world \<open>'w\<close>.
\<close>

subsection \<open>String methods of Python used by the source\<close>

fun startswith :: "string \<Rightarrow> string \<Rightarrow> bool" where
  "startswith s [] = True"
| "startswith [] (c # p) = False"
| "startswith (x # s) (c # p) = (x = c \<and> startswith s p)"

text \<open>\<^verbatim>\<open>sub in s\<close> on strings: \<open>sub\<close> occurs in \<open>s\<close> as a contiguous substring.\<close>

fun contains :: "string \<Rightarrow> string \<Rightarrow> bool" where
  "contains [] sub = (sub = [])"
| "contains (x # s) sub = (startswith (x # s) sub \<or> contains s sub)"

text \<open>
  \<^verbatim>\<open>s.replace(old, new)\<close> for a non-empty \<open>old\<close>: every non-overlapping occurrence,
  scanning from the left, is replaced. (The source only calls it with the fixed non-empty
  namespace string; the equation for an empty \<open>old\<close> is not Python's and is never used.)
\<close>

fun replace :: "string \<Rightarrow> string \<Rightarrow> string \<Rightarrow> string" where
  "replace s [] new = s"
| "replace [] (c # cs) new = []"
| "replace (x # s) (c # cs) new =
     (if startswith (x # s) (c # cs) then new @ replace (drop (length cs) s) (c # cs) new
      else x # replace s (c # cs) new)"

definition lower_char :: "char \<Rightarrow> char" where
  "lower_char c =
     (let n = (of_char c :: nat) in if 65 \<le> n \<and> n \<le> 90 then char_of (n + 32) else c)"

definition lower :: "string \<Rightarrow> string" where
  "lower s = map lower_char s"

text \<open>\<^verbatim>\<open>s.split('/')\<close>: never the empty list.\<close>

fun split_sep :: "string \<Rightarrow> string list" where
  "split_sep [] = [[]]"
| "split_sep (c # s) =
     (if c = CHR ''/'' then [] # split_sep s
      else (case split_sep s of [] \<Rightarrow> [[c]] | w # ws \<Rightarrow> (c # w) # ws))"

text \<open>\<^verbatim>\<open>'/'.join(parts)\<close>.\<close>

fun join_sep :: "string list \<Rightarrow> string" where
  "join_sep [] = []"
| "join_sep [x] = x"
| "join_sep (x # y # ys) = x @ ''/'' @ join_sep (y # ys)"

text \<open>\<^verbatim>\<open>name.rfind('.')\<close>, as \<open>None\<close> for Python's \<open>-1\<close>.\<close>

fun rfind_dot :: "string \<Rightarrow> nat option" where
  "rfind_dot [] = None"
| "rfind_dot (c # s) =
     (case rfind_dot s of
        Some i \<Rightarrow> Some (Suc i)
      | None \<Rightarrow> if c = CHR ''.'' then Some 0 else None)"

subsection \<open>posixpath and pathlib (POSIX flavour)\<close>

text \<open>\<^verbatim>\<open>os.path.join(a, b)\<close>.\<close>

definition os_path_join :: "string \<Rightarrow> string \<Rightarrow> string" where
  "os_path_join a b =
     (if startswith b ''/'' then b
      else if a = [] \<or> last a = CHR ''/'' then a @ b
      else a @ ''/'' @ b)"

text \<open>\<^verbatim>\<open>posixpath.splitroot\<close>, without the (always empty) drive: (root, rest).\<close>

definition splitroot :: "string \<Rightarrow> string \<times> string" where
  "splitroot p =
     (if take 1 p \<noteq> ''/'' then ([], p)
      else if take 1 (drop 1 p) \<noteq> ''/'' \<or> take 1 (drop 2 p) = ''/'' then (''/'', drop 1 p)
      else (take 2 p, drop 2 p))"

text \<open>
  A pure path is its root (\<open>''''\<close>, \<open>''/''\<close> or \<open>''//''\<close>) and the list of its components,
  as pathlib keeps it after parsing.
\<close>

datatype pure_path = PurePath (root: string) (tail: "string list")

text \<open>\<^verbatim>\<open>Path(s)\<close>: empty and \<^verbatim>\<open>.\<close> components are dropped, \<^verbatim>\<open>..\<close> is kept.\<close>

definition Path :: "string \<Rightarrow> pure_path" where
  "Path s =
     (case splitroot s of
        (r, rel) \<Rightarrow> PurePath r (filter (\<lambda>x. x \<noteq> [] \<and> x \<noteq> ''.'') (split_sep rel)))"

text \<open>The formatted parts; \<^verbatim>\<open>str(p)\<close> is this string, or \<^verbatim>\<open>.\<close> when it is empty.\<close>

definition format_parts :: "pure_path \<Rightarrow> string" where
  "format_parts p = root p @ join_sep (tail p)"

definition str :: "pure_path \<Rightarrow> string" where
  "str p = (if format_parts p = [] then ''.'' else format_parts p)"

definition parent :: "pure_path \<Rightarrow> pure_path" where
  "parent p = (if tail p = [] then p else PurePath (root p) (butlast (tail p)))"

definition name :: "pure_path \<Rightarrow> string" where
  "name p = (if tail p = [] then [] else last (tail p))"

text \<open>
  \<^verbatim>\<open>suffix\<close> and \<^verbatim>\<open>stem\<close>: the last dot of the name splits it, unless it is the first or
  the last character of the name (pathlib up to Python 3.13).
\<close>

definition suffix :: "pure_path \<Rightarrow> string" where
  "suffix p =
     (case rfind_dot (name p) of
        None \<Rightarrow> []
      | Some i \<Rightarrow> if 0 < i \<and> i + 1 < length (name p) then drop i (name p) else [])"

definition stem :: "pure_path \<Rightarrow> string" where
  "stem p =
     (case rfind_dot (name p) of
        None \<Rightarrow> name p
      | Some i \<Rightarrow> if 0 < i \<and> i + 1 < length (name p) then take i (name p) else name p)"

text \<open>\<^verbatim>\<open>p / s\<close>: the segments are joined with \<^verbatim>\<open>os.path.join\<close> and parsed again.\<close>

definition joinpath :: "pure_path \<Rightarrow> string \<Rightarrow> pure_path" where
  "joinpath p s = Path (os_path_join (format_parts p) s)"

subsection \<open>const.py\<close>

definition VIDEO_EXTENSIONS :: "string list" where
  "VIDEO_EXTENSIONS = [''.mp4'', ''.mkv'', ''.avi'', ''.mov'', ''.webm'', ''.m4v'', ''.ts'']"

definition IMAGE_EXTENSIONS :: "string list" where
  "IMAGE_EXTENSIONS = [''.jpg'', ''.jpeg'', ''.png'', ''.gif'', ''.webp'']"

definition DEFAULT_THUMBNAIL_FOLDER :: string where
  "DEFAULT_THUMBNAIL_FOLDER = ''.thumbnails''"


subsection \<open>The world outside the program\<close>

text \<open>
  Exceptions are values: a kind and the exception's text. Only the kinds the source
  tells apart are named; every other \<^verbatim>\<open>Exception\<close> is \<open>OtherException\<close>.
  (\<^verbatim>\<open>asyncio.TimeoutError\<close> is the built-in \<^verbatim>\<open>TimeoutError\<close>.) Task cancellation and the
  other \<^verbatim>\<open>BaseException\<close>s are outside the model, as is the interleaving of coroutines:
  the model runs one call at a time.
\<close>

datatype exn_kind = FileNotFoundError | TimeoutError | OtherException

type_synonym exn = "exn_kind \<times> string"

text \<open>
  What starting a subprocess and waiting for it gives: it exits with a return code
  (and the bytes it wrote to standard error), or an exception is raised.
\<close>

datatype outcome = Exited int string | Raised exn

text \<open>
  The operating system over a world \<open>'w\<close>:
  \<^item> \<open>os_path_exists\<close>: \<^verbatim>\<open>os.path.exists(p)\<close>, which never raises (every failure of the
    underlying \<^verbatim>\<open>stat\<close> makes it false);
  \<^item> \<open>path_exists\<close>: \<^verbatim>\<open>Path(p).exists()\<close>, which is false when \<^verbatim>\<open>stat\<close> reports that the
    file is not there and raises every other \<^verbatim>\<open>OSError\<close> again (a name that is too long,
    a directory that may not be searched);
  \<^item> \<open>stat_mtime\<close>: \<^verbatim>\<open>Path(p).stat().st_mtime\<close>, a finite float read as the rational
    number it denotes, or the exception \<^verbatim>\<open>stat\<close> raises;
  \<^item> \<open>os_walk\<close>: the triples (root, dirnames, filenames) that \<^verbatim>\<open>os.walk(top)\<close> yields, in
    order, listed from the world as it is when the walk of \<open>top\<close> starts;
  \<^item> \<open>mkdir\<close>: \<^verbatim>\<open>Path(p).mkdir(parents=True, exist_ok=True)\<close>;
  \<^item> \<open>subprocess\<close>: \<^verbatim>\<open>asyncio.create_subprocess_exec(*cmd)\<close> followed by waiting for the
    process, under the given timeout in seconds if there is one;
  \<^item> \<open>md5_hexdigest\<close>: \<^verbatim>\<open>hashlib.md5(s.encode()).hexdigest()\<close>.
\<close>

record 'w os =
  os_path_exists :: "'w \<Rightarrow> string \<Rightarrow> bool"
  path_exists :: "'w \<Rightarrow> string \<Rightarrow> exn + bool"
  stat_mtime :: "'w \<Rightarrow> string \<Rightarrow> exn + rat"
  os_walk :: "'w \<Rightarrow> string \<Rightarrow> (string \<times> string list \<times> string list) list"
  mkdir :: "'w \<Rightarrow> string \<Rightarrow> exn option \<times> 'w"
  subprocess :: "'w \<Rightarrow> string list \<Rightarrow> nat option \<Rightarrow> outcome \<times> 'w"
  md5_hexdigest :: "string \<Rightarrow> string"

subsection \<open>The generator object\<close>

text \<open>
  The fields set by \<^verbatim>\<open>__init__\<close> and never assigned again. \<open>frame_position\<close> is a float
  that the source only prints into the command line: the model keeps its printed form.
\<close>

record config =
  media_paths :: "string list"
  width :: int
  height :: int
  quality :: int
  frame_position :: string
  thumbnail_folder :: string

datatype level = DEBUG | INFO | WARNING | ERROR

text \<open>
  The mutable part: \<^verbatim>\<open>_ffmpeg_available\<close> and \<^verbatim>\<open>_cache\<close> of the object, the world, and two
  observation traces the model keeps: every command line handed to
  \<^verbatim>\<open>create_subprocess_exec\<close>, and every record sent to the logger, both in order.
\<close>

record 'w state =
  ffmpeg_available :: "bool option"
  cache :: "string \<rightharpoonup> string"
  world :: 'w
  spawned :: "string list list"
  logged :: "(level \<times> string) list"

definition init_state :: "'w \<Rightarrow> 'w state" where
  "init_state w =
     \<lparr>ffmpeg_available = None, cache = Map.empty, world = w, spawned = [], logged = []\<rparr>"

definition emit :: "level \<Rightarrow> string \<Rightarrow> 'w state \<Rightarrow> 'w state" where
  "emit l m s = s\<lparr>logged := logged s @ [(l, m)]\<rparr>"

definition run :: "'w os \<Rightarrow> string list \<Rightarrow> nat option \<Rightarrow> 'w state \<Rightarrow> outcome \<times> 'w state" where
  "run os cmd timeout s =
     (case subprocess os (world s) cmd timeout of
        (out, w') \<Rightarrow> (out, s\<lparr>world := w', spawned := spawned s @ [cmd]\<rparr>))"

subsection \<open>Printing integers\<close>

definition digit :: "nat \<Rightarrow> char" where
  "digit n = char_of (48 + n)"

function str_nat :: "nat \<Rightarrow> string" where
  "str_nat n = (if n < 10 then [digit n] else str_nat (n div 10) @ [digit (n mod 10)])"
  by pat_completeness auto
termination
  by (relation "measure id") auto

declare str_nat.simps [simp del]

definition str_int :: "int \<Rightarrow> string" where
  "str_int i = (if i < 0 then ''-'' @ str_nat (nat (- i)) else str_nat (nat i))"

subsection \<open>The quality argument\<close>

text \<open>
  \<^verbatim>\<open>int(x)\<close> on a float truncates toward zero. The quotient \<^verbatim>\<open>(100 - quality) / 3.33\<close> is
  computed here in exact rational arithmetic; for the configured range of \<open>quality\<close> the
  exact quotient \<open>100 * (100 - quality) / 333\<close> is an integer only at zero and is otherwise
  at least \<open>1 / 333\<close> away from every integer, far more than the rounding error of the
  double division, so truncating the float and truncating the exact quotient agree.
\<close>

definition py_int :: "rat \<Rightarrow> int" where
  "py_int x = (if 0 \<le> x then \<lfloor>x\<rfloor> else \<lceil>x\<rceil>)"

definition qv :: "config \<Rightarrow> int" where
  "qv c = py_int (of_int (100 - quality c) / (333 / 100))"

text \<open>Python's \<^verbatim>\<open>round(x)\<close> on a float: to the nearest integer, ties to the even one.\<close>

definition py_round :: "rat \<Rightarrow> int" where
  "py_round x =
     (let f = \<lfloor>x\<rfloor>; d = x - of_int f
      in if d < 1 / 2 then f else if 1 / 2 < d then f + 1 else if even f then f else f + 1)"


subsection \<open>ThumbnailGenerator\<close>

text \<open>
  Every method returns its result, or the exception it raises, together with the state
  it leaves behind.
\<close>

definition set_available :: "bool \<Rightarrow> 'w state \<Rightarrow> (exn + bool) \<times> 'w state" where
  "set_available b s =
     (Inr b,
      (if \<not> b then emit WARNING ''ffmpeg not found - thumbnail generation disabled''
       else emit INFO ''ffmpeg found - thumbnail generation enabled'')
        (s\<lparr>ffmpeg_available := Some b\<rparr>))"

definition async_check_ffmpeg :: "'w os \<Rightarrow> 'w state \<Rightarrow> (exn + bool) \<times> 'w state" where
  "async_check_ffmpeg os s =
     (case ffmpeg_available s of
        Some b \<Rightarrow> (Inr b, s)
      | None \<Rightarrow>
          (case run os [''ffmpeg'', ''-version''] None s of
             (Exited rc err, s1) \<Rightarrow> set_available (rc = 0) s1
           | (Raised e, s1) \<Rightarrow>
               if fst e = FileNotFoundError then set_available False s1 else (Inl e, s1)))"

definition get_thumbnail_path :: "'w os \<Rightarrow> config \<Rightarrow> string \<Rightarrow> pure_path" where
  "get_thumbnail_path os c media_path =
     (let media_file = Path media_path;
          path_hash = take 8 (md5_hexdigest os media_path);
          thumb_name = stem media_file @ ''_'' @ path_hash @ ''.jpg'';
          thumb_dir = joinpath (parent media_file) (thumbnail_folder c)
      in joinpath thumb_dir thumb_name)"

definition is_video :: "string \<Rightarrow> bool" where
  "is_video p = (lower (suffix (Path p)) \<in> set VIDEO_EXTENSIONS)"

definition is_image :: "string \<Rightarrow> bool" where
  "is_image p = (lower (suffix (Path p)) \<in> set IMAGE_EXTENSIONS)"

text \<open>The loop \<^verbatim>\<open>for base_path in self.media_paths\<close> of \<^verbatim>\<open>_resolve_media_path\<close>.\<close>

fun first_existing :: "'w os \<Rightarrow> 'w \<Rightarrow> string list \<Rightarrow> string \<Rightarrow> exn + string option" where
  "first_existing os w [] relative_path = Inr None"
| "first_existing os w (base_path # rest) relative_path =
     (let test_path = joinpath (Path base_path) relative_path
      in case path_exists os w (str test_path) of
           Inl e \<Rightarrow> Inl e
         | Inr found \<Rightarrow>
             if found then Inr (Some (str test_path))
             else first_existing os w rest relative_path)"

definition resolve_media_path :: "'w os \<Rightarrow> config \<Rightarrow> 'w \<Rightarrow> string \<Rightarrow> exn + string option" where
  "resolve_media_path os c w media_content_id =
     (if startswith media_content_id ''media-source://media_source/'' then
        (let relative_path0 = replace media_content_id ''media-source://media_source/'' [];
             relative_path =
               (if startswith relative_path0 ''local/'' then drop 6 relative_path0
                else relative_path0);
             full_path = joinpath (Path ''/media'') relative_path
         in case path_exists os w (str full_path) of
              Inl e \<Rightarrow> Inl e
            | Inr found \<Rightarrow>
                if found then Inr (Some (str full_path))
                else first_existing os w (media_paths c) relative_path)
      else if os_path_exists os w media_content_id then Inr (Some media_content_id)
      else Inr None)"

definition scale_filter :: "config \<Rightarrow> string" where
  "scale_filter c =
     ''scale='' @ str_int (width c) @ '':'' @ str_int (height c)
       @ '':force_original_aspect_ratio=decrease,pad='' @ str_int (width c) @ '':''
       @ str_int (height c) @ '':(ow-iw)/2:(oh-ih)/2''"

definition video_cmd :: "config \<Rightarrow> string \<Rightarrow> pure_path \<Rightarrow> string list" where
  "video_cmd c video_path thumb_path =
     [''ffmpeg'', ''-y'', ''-ss'', frame_position c, ''-i'', video_path, ''-vframes'', ''1'',
      ''-vf'', scale_filter c, ''-q:v'', str_int (qv c), str thumb_path]"

definition image_cmd :: "config \<Rightarrow> string \<Rightarrow> pure_path \<Rightarrow> string list" where
  "image_cmd c image_path thumb_path =
     [''ffmpeg'', ''-y'', ''-i'', image_path,
      ''-vf'', scale_filter c, ''-q:v'', str_int (qv c), str thumb_path]"

definition ffmpeg_failed_msg :: "string \<Rightarrow> string \<Rightarrow> string" where
  "ffmpeg_failed_msg p err =
     ''ffmpeg failed for '' @ p @ '': '' @ (if err \<noteq> [] then err else ''Unknown error'')"

definition generate_video_thumbnail ::
  "'w os \<Rightarrow> config \<Rightarrow> string \<Rightarrow> pure_path \<Rightarrow> 'w state \<Rightarrow> (exn + bool) \<times> 'w state" where
  "generate_video_thumbnail os c video_path thumb_path s =
     (case async_check_ffmpeg os s of
        (Inl e, s1) \<Rightarrow> (Inl e, s1)
      | (Inr available, s1) \<Rightarrow>
          if \<not> available then (Inr False, s1)
          else
            (case mkdir os (world s1) (str (parent thumb_path)) of
               (Some e, w2) \<Rightarrow> (Inl e, s1\<lparr>world := w2\<rparr>)
             | (None, w2) \<Rightarrow>
                 (case run os (video_cmd c video_path thumb_path) (Some 30) (s1\<lparr>world := w2\<rparr>) of
                    (Exited rc err, s3) \<Rightarrow>
                      if rc \<noteq> 0 then
                        (Inr False, emit WARNING (ffmpeg_failed_msg video_path err) s3)
                      else (Inr True, emit DEBUG (''Generated thumbnail for: '' @ video_path) s3)
                  | (Raised e, s3) \<Rightarrow>
                      if fst e = TimeoutError then
                        (Inr False,
                         emit WARNING (''Thumbnail generation timed out for: '' @ video_path) s3)
                      else
                        (Inr False,
                         emit ERROR
                           (''Error generating thumbnail for '' @ video_path @ '': '' @ snd e)
                           s3))))"

definition generate_image_thumbnail ::
  "'w os \<Rightarrow> config \<Rightarrow> string \<Rightarrow> pure_path \<Rightarrow> 'w state \<Rightarrow> (exn + bool) \<times> 'w state" where
  "generate_image_thumbnail os c image_path thumb_path s =
     (case async_check_ffmpeg os s of
        (Inl e, s1) \<Rightarrow> (Inl e, s1)
      | (Inr available, s1) \<Rightarrow>
          if \<not> available then (Inr False, s1)
          else
            (case mkdir os (world s1) (str (parent thumb_path)) of
               (Some e, w2) \<Rightarrow> (Inl e, s1\<lparr>world := w2\<rparr>)
             | (None, w2) \<Rightarrow>
                 (case run os (image_cmd c image_path thumb_path) (Some 15) (s1\<lparr>world := w2\<rparr>) of
                    (Exited rc err, s3) \<Rightarrow>
                      if rc \<noteq> 0 then
                        (Inr False, emit WARNING (ffmpeg_failed_msg image_path err) s3)
                      else (Inr True, s3)
                  | (Raised e, s3) \<Rightarrow>
                      if fst e = TimeoutError then
                        (Inr False,
                         emit WARNING (''Thumbnail generation timed out for: '' @ image_path) s3)
                      else
                        (Inr False,
                         emit ERROR
                           (''Error generating thumbnail for '' @ image_path @ '': '' @ snd e)
                           s3))))"

text \<open>
  \<^verbatim>\<open>async_get_thumbnail\<close>, in the order of the source: the memoized mapping, the
  resolution, the check of an existing thumbnail, the dispatch on the file type. The body
  is cut into \<open>memoized\<close> (the first \<^verbatim>\<open>if\<close>), \<open>lookup_resolved\<close> (from the cache path
  to the freshness check) and \<open>generate_for_lookup\<close> (the dispatch and what follows it).
\<close>

definition generate_for_lookup ::
  "'w os \<Rightarrow> config \<Rightarrow> string \<Rightarrow> string \<Rightarrow> pure_path \<Rightarrow> 'w state
     \<Rightarrow> (exn + string option) \<times> 'w state" where
  "generate_for_lookup os c media_path actual_path thumb_path s =
     (if is_video actual_path then
        (case generate_video_thumbnail os c actual_path thumb_path s of
           (Inl e, s1) \<Rightarrow> (Inl e, s1)
         | (Inr success, s1) \<Rightarrow>
             if success then
               (Inr (Some (str thumb_path)), s1\<lparr>cache := (cache s1)(media_path \<mapsto> str thumb_path)\<rparr>)
             else (Inr None, s1))
      else if is_image actual_path then
        (case generate_image_thumbnail os c actual_path thumb_path s of
           (Inl e, s1) \<Rightarrow> (Inl e, s1)
         | (Inr success, s1) \<Rightarrow>
             if success then
               (Inr (Some (str thumb_path)), s1\<lparr>cache := (cache s1)(media_path \<mapsto> str thumb_path)\<rparr>)
             else (Inr None, s1))
      else (Inr None, emit DEBUG (''Unsupported file type: '' @ actual_path) s))"

definition lookup_resolved ::
  "'w os \<Rightarrow> config \<Rightarrow> string \<Rightarrow> string \<Rightarrow> 'w state \<Rightarrow> (exn + string option) \<times> 'w state" where
  "lookup_resolved os c media_path actual_path s =
     (let thumb_path = get_thumbnail_path os c actual_path in
      case path_exists os (world s) (str thumb_path) of
        Inl e \<Rightarrow> (Inl e, s)
      | Inr found \<Rightarrow>
          if found then
            (case stat_mtime os (world s) (str thumb_path) of
               Inl e \<Rightarrow> (Inl e, s)
             | Inr thumb_mtime \<Rightarrow>
                 (case stat_mtime os (world s) (str (Path actual_path)) of
                    Inl e \<Rightarrow> (Inl e, s)
                  | Inr media_mtime \<Rightarrow>
                      if thumb_mtime \<ge> media_mtime then
                        (Inr (Some (str thumb_path)),
                         s\<lparr>cache := (cache s)(media_path \<mapsto> str thumb_path)\<rparr>)
                      else generate_for_lookup os c media_path actual_path thumb_path s))
          else generate_for_lookup os c media_path actual_path thumb_path s)"

definition memoized :: "'w os \<Rightarrow> 'w state \<Rightarrow> string \<Rightarrow> string option" where
  "memoized os s media_path =
     (case cache s media_path of
        None \<Rightarrow> None
      | Some thumb_path \<Rightarrow> if os_path_exists os (world s) thumb_path then Some thumb_path else None)"

definition async_get_thumbnail ::
  "'w os \<Rightarrow> config \<Rightarrow> string \<Rightarrow> 'w state \<Rightarrow> (exn + string option) \<times> 'w state" where
  "async_get_thumbnail os c media_path s =
     (case memoized os s media_path of
        Some thumb_path \<Rightarrow> (Inr (Some thumb_path), s)
      | None \<Rightarrow>
          (case resolve_media_path os c (world s) media_path of
             Inl e \<Rightarrow> (Inl e, s)
           | Inr None \<Rightarrow> (Inr None, emit DEBUG (''Media file not found: '' @ media_path) s)
           | Inr (Some actual_path) \<Rightarrow>
               if actual_path = [] \<or> \<not> os_path_exists os (world s) actual_path then
                 (Inr None, emit DEBUG (''Media file not found: '' @ media_path) s)
               else lookup_resolved os c media_path actual_path s))"

definition clear_cache :: "'w state \<Rightarrow> 'w state" where
  "clear_cache s = s\<lparr>cache := Map.empty\<rparr>"


subsection \<open>The bulk scan\<close>

record stats =
  scanned :: int
  generated :: int
  skipped :: int
  failed :: int

text \<open>The tail of one pass of the inner loop: render, then count the outcome.\<close>

definition render_and_count ::
  "'w os \<Rightarrow> config \<Rightarrow> string \<Rightarrow> string \<Rightarrow> pure_path \<Rightarrow> stats \<Rightarrow> 'w state
     \<Rightarrow> (exn + stats) \<times> 'w state" where
  "render_and_count os c ext file_path thumb_path st s =
     (case (if ext \<in> set VIDEO_EXTENSIONS
            then generate_video_thumbnail os c file_path thumb_path s
            else generate_image_thumbnail os c file_path thumb_path s) of
        (Inl e, s1) \<Rightarrow> (Inl e, s1)
      | (Inr success, s1) \<Rightarrow>
          if success then (Inr (st\<lparr>generated := generated st + 1\<rparr>), s1)
          else (Inr (st\<lparr>failed := failed st + 1\<rparr>), s1))"

text \<open>One pass of the loop \<^verbatim>\<open>for filename in files\<close>.\<close>

definition scan_file ::
  "'w os \<Rightarrow> config \<Rightarrow> string \<Rightarrow> string \<Rightarrow> stats \<Rightarrow> 'w state \<Rightarrow> (exn + stats) \<times> 'w state" where
  "scan_file os c walk_root filename st s =
     (let file_path = os_path_join walk_root filename;
          ext = lower (suffix (Path filename))
      in if ext \<notin> set VIDEO_EXTENSIONS \<and> ext \<notin> set IMAGE_EXTENSIONS then (Inr st, s)
         else
           (let st1 = st\<lparr>scanned := scanned st + 1\<rparr>;
                thumb_path = get_thumbnail_path os c file_path
            in case path_exists os (world s) (str thumb_path) of
                 Inl e \<Rightarrow> (Inl e, s)
               | Inr found \<Rightarrow>
                   if found then
                     (case stat_mtime os (world s) (str thumb_path) of
                        Inl e \<Rightarrow> (Inl e, s)
                      | Inr thumb_mtime \<Rightarrow>
                          (case stat_mtime os (world s) (str (Path file_path)) of
                             Inl e \<Rightarrow> (Inl e, s)
                           | Inr file_mtime \<Rightarrow>
                               if thumb_mtime \<ge> file_mtime then
                                 (Inr (st1\<lparr>skipped := skipped st1 + 1\<rparr>), s)
                               else render_and_count os c ext file_path thumb_path st1 s))
                   else render_and_count os c ext file_path thumb_path st1 s))"

fun scan_files ::
  "'w os \<Rightarrow> config \<Rightarrow> string \<Rightarrow> string list \<Rightarrow> stats \<Rightarrow> 'w state
     \<Rightarrow> (exn + stats) \<times> 'w state" where
  "scan_files os c walk_root [] st s = (Inr st, s)"
| "scan_files os c walk_root (filename # files) st s =
     (case scan_file os c walk_root filename st s of
        (Inl e, s1) \<Rightarrow> (Inl e, s1)
      | (Inr st1, s1) \<Rightarrow> scan_files os c walk_root files st1 s1)"

text \<open>The loop \<^verbatim>\<open>for root, _, files in os.walk(base_path)\<close>.\<close>

fun scan_walk ::
  "'w os \<Rightarrow> config \<Rightarrow> (string \<times> string list \<times> string list) list \<Rightarrow> stats \<Rightarrow> 'w state
     \<Rightarrow> (exn + stats) \<times> 'w state" where
  "scan_walk os c [] st s = (Inr st, s)"
| "scan_walk os c ((walk_root, dirs, files) # rest) st s =
     (if contains walk_root (thumbnail_folder c) then scan_walk os c rest st s
      else
        (case scan_files os c walk_root files st s of
           (Inl e, s1) \<Rightarrow> (Inl e, s1)
         | (Inr st1, s1) \<Rightarrow> scan_walk os c rest st1 s1))"

text \<open>The loop \<^verbatim>\<open>for base_path in paths_to_scan\<close>.\<close>

fun scan_paths ::
  "'w os \<Rightarrow> config \<Rightarrow> string list \<Rightarrow> stats \<Rightarrow> 'w state \<Rightarrow> (exn + stats) \<times> 'w state" where
  "scan_paths os c [] st s = (Inr st, s)"
| "scan_paths os c (base_path # rest) st s =
     (if \<not> os_path_exists os (world s) base_path then
        scan_paths os c rest st (emit WARNING (''Media path does not exist: '' @ base_path) s)
      else
        (case scan_walk os c (os_walk os (world s) base_path) st s of
           (Inl e, s1) \<Rightarrow> (Inl e, s1)
         | (Inr st1, s1) \<Rightarrow> scan_paths os c rest st1 s1))"

definition stats_msg :: "stats \<Rightarrow> string" where
  "stats_msg st =
     ''Thumbnail generation: '' @ str_int (scanned st) @ '' scanned, ''
       @ str_int (generated st) @ '' generated, '' @ str_int (skipped st) @ '' skipped, ''
       @ str_int (failed st) @ '' failed''"

definition async_generate_all_thumbnails ::
  "'w os \<Rightarrow> config \<Rightarrow> string option \<Rightarrow> 'w state \<Rightarrow> (exn + stats) \<times> 'w state" where
  "async_generate_all_thumbnails os c path s =
     (let stats0 = \<lparr>scanned = 0, generated = 0, skipped = 0, failed = 0\<rparr>;
          paths_to_scan =
            (case path of
               None \<Rightarrow> media_paths c
             | Some p \<Rightarrow> if p \<noteq> [] then [p] else media_paths c)
      in case scan_paths os c paths_to_scan stats0 s of
           (Inl e, s1) \<Rightarrow> (Inl e, s1)
         | (Inr st, s1) \<Rightarrow> (Inr st, emit INFO (stats_msg st) s1))"


subsection \<open>A small concrete world, for the examples\<close>

text \<open>
  A world to run the model on: a tree of directories and files, each file with its
  modification time. The world is the list of entries of the root directory \<^verbatim>\<open>/\<close>;
  relative paths are read from the root. Directories carry no time in this small world
  (the program reads the times of files only), and it has no symbolic links.
\<close>

datatype node = File rat | Dir "(string \<times> node) list"

fun lookup :: "(string \<times> node) list \<Rightarrow> string list \<Rightarrow> node option" where
  "lookup es [] = Some (Dir es)"
| "lookup es (n # ns) =
     (case map_of es n of
        None \<Rightarrow> None
      | Some (File t) \<Rightarrow> if ns = [] then Some (File t) else None
      | Some (Dir sub) \<Rightarrow> lookup sub ns)"

text \<open>
  \<^verbatim>\<open>os.walk\<close>, top-down: a directory yields its own triple, then the walks of its
  subdirectories in the order of the listing.
\<close>

fun walk_node :: "string \<Rightarrow> node \<Rightarrow> (string \<times> string list \<times> string list) list"
  and walk_entries :: "string \<Rightarrow> (string \<times> node) list \<Rightarrow> (string \<times> string list \<times> string list) list"
  where
  "walk_node start (File t) = []"
| "walk_node start (Dir es) =
     (start, map fst (filter (\<lambda>e. case snd e of Dir sub \<Rightarrow> True | File t \<Rightarrow> False) es),
           map fst (filter (\<lambda>e. case snd e of Dir sub \<Rightarrow> False | File t \<Rightarrow> True) es))
       # walk_entries start es"
| "walk_entries start [] = []"
| "walk_entries start (e # es) = walk_node (os_path_join start (fst e)) (snd e) @ walk_entries start es"

text \<open>\<^verbatim>\<open>mkdir(parents=True, exist_ok=True)\<close>: \<open>None\<close> when a component is a file.\<close>

fun mkdirs :: "string list \<Rightarrow> (string \<times> node) list \<Rightarrow> (string \<times> node) list option" where
  "mkdirs [] es = Some es"
| "mkdirs (n # ns) es =
     (case map_of es n of
        None \<Rightarrow> map_option (\<lambda>sub. es @ [(n, Dir sub)]) (mkdirs ns [])
      | Some (File t) \<Rightarrow> None
      | Some (Dir sub) \<Rightarrow>
          map_option (\<lambda>sub'. map (\<lambda>e. if fst e = n then (n, Dir sub') else e) es) (mkdirs ns sub))"

text \<open>
  The digests of the paths of the examples, as \<^verbatim>\<open>hashlib.md5\<close> gives them; any other
  path gets a string of zeros here.
\<close>

definition md5_table :: "string \<Rightarrow> string" where
  "md5_table p =
     (case map_of
        [(''/m/clip.mp4'', ''c3e051e003abea7908e9c4bdaf68c954''),
         (''/m/movie.mp4'', ''257d303b7368e964681099cd9a91b03e''),
         (''/m/photo.png'', ''4564d7b3849c4bedcaae61cc4a062b61''),
         (''/m/notes.txt'', ''98088b99c8f16c1baee895d99a3ed257''),
         (''/media/cam/clip.mp4'', ''352b2d8a81f317aa30cae48dac6e5a5c''),
         (''/m/t/clip_c3e051e0.jpg'', ''e34d99d126a43fdf5d793f45b517fbe0''),
         (''/m/b.mp4'', ''3f381a5c4f428d30fb2bd9152c9b68c3''),
         (''/m/old.thumbnails.bak/a.mp4'', ''682e74a3b738ebf80e9b99190abac872''),
         (''/n/Clip.MKV'', ''78edfd1dee57e66b617b3dd4815eaffd'')] p of
        Some h \<Rightarrow> h
      | None \<Rightarrow> replicate 32 (CHR ''0''))"

text \<open>
  A file name of more than 255 bytes: \<^verbatim>\<open>stat\<close> fails on it with \<^verbatim>\<open>ENAMETOOLONG\<close>.
\<close>

definition name_too_long :: "string \<Rightarrow> bool" where
  "name_too_long p = list_ex (\<lambda>x. 255 < length x) (tail (Path p))"

definition ENAMETOOLONG :: "string \<Rightarrow> exn" where
  "ENAMETOOLONG p = (OtherException, ''[Errno 36] File name too long: '' @ p)"

text \<open>
  The operating system over such a tree. The external tool is a parameter \<open>tool\<close>: what
  running a command line gives. It never writes to the tree. On a name that is too long
  \<^verbatim>\<open>os.path.exists\<close> is false, and \<^verbatim>\<open>Path.exists\<close> and \<^verbatim>\<open>stat\<close> raise.
\<close>

definition tree_os :: "(string list \<Rightarrow> outcome) \<Rightarrow> (string \<times> node) list os" where
  "tree_os tool =
     \<lparr>os_path_exists = (\<lambda>w p. \<not> name_too_long p \<and> lookup w (tail (Path p)) \<noteq> None),
      path_exists =
        (\<lambda>w p. if name_too_long p then Inl (ENAMETOOLONG p)
                else Inr (lookup w (tail (Path p)) \<noteq> None)),
      stat_mtime =
        (\<lambda>w p. if name_too_long p then Inl (ENAMETOOLONG p)
                else case lookup w (tail (Path p)) of
                  None \<Rightarrow> Inl (FileNotFoundError, p)
                | Some (File t) \<Rightarrow> Inr t
                | Some (Dir sub) \<Rightarrow> Inr 0),
      os_walk =
        (\<lambda>w start. case lookup w (tail (Path start)) of
                    None \<Rightarrow> []
                  | Some x \<Rightarrow> walk_node start x),
      mkdir =
        (\<lambda>w p. case mkdirs (tail (Path p)) w of
                  None \<Rightarrow> (Some (OtherException, p), w)
                | Some w' \<Rightarrow> (None, w')),
      subprocess = (\<lambda>w cmd timeout. (tool cmd, w)),
      md5_hexdigest = md5_table\<rparr>"

text \<open>A host without the tool, and a tool that exits with code 0 whatever it is given.\<close>

definition no_tool :: "string list \<Rightarrow> outcome" where
  "no_tool cmd = Raised (FileNotFoundError, ''ffmpeg'')"

definition exit0_tool :: "string list \<Rightarrow> outcome" where
  "exit0_tool cmd = Exited 0 []"

definition example_config :: config where
  "example_config =
     \<lparr>media_paths = [''/m''], width = 320, height = 180, quality = 70,
      frame_position = ''0.5'', thumbnail_folder = ''.thumbnails''\<rparr>"

text \<open>One video and the cache subdirectory that holds its (newer) thumbnail.\<close>

definition cached_tree :: "(string \<times> node) list" where
  "cached_tree =
     [(''m'', Dir [(''clip.mp4'', File 100),
                  (''.thumbnails'', Dir [(''clip_c3e051e0.jpg'', File 200)])])]"

text \<open>Two media files and two other files, no cache yet.\<close>

definition mixed_tree :: "(string \<times> node) list" where
  "mixed_tree =
     [(''m'', Dir [(''movie.mp4'', File 1), (''photo.png'', File 2),
                  (''notes.txt'', File 3), (''archive.zip'', File 4)])]"

text \<open>
  The same video and thumbnail, on a host configured with the cache subdirectory name
  \<^verbatim>\<open>t/\<close>: pathlib drops the trailing separator, and the thumbnails are kept in \<^verbatim>\<open>/m/t\<close>.
\<close>

definition slash_config :: config where
  "slash_config = example_config\<lparr>thumbnail_folder := ''t/''\<rparr>"

definition slash_tree :: "(string \<times> node) list" where
  "slash_tree =
     [(''m'', Dir [(''clip.mp4'', File 100),
                  (''t'', Dir [(''clip_c3e051e0.jpg'', File 200)])])]"




subsection \<open>The specification's wording, for comparison\<close>

text \<open>
  The specification derives the quality argument as \<^verbatim>\<open>round((100 - quality) / 3.33)\<close>.
\<close>

definition spec_round_qv :: "config \<Rightarrow> int" where
  "spec_round_qv c = py_round (of_int (100 - quality c) / (333 / 100))"

subsection \<open>Auxiliary predicates of the proofs\<close>

text \<open>
  A plain component is what pathlib keeps of a path between two separators; a pure path
  is well formed when its root is one of the three POSIX roots and its components are
  plain. The hexadecimal digits are those of \<^verbatim>\<open>hexdigest()\<close>.
\<close>

definition plain :: "string \<Rightarrow> bool" where
  "plain x = (x \<noteq> [] \<and> x \<noteq> ''.'' \<and> CHR ''/'' \<notin> set x)"

definition wf_path :: "pure_path \<Rightarrow> bool" where
  "wf_path d = (root d \<in> {[], ''/'', ''//''} \<and> (\<forall>x\<in>set (tail d). plain x))"

definition hexdigits :: string where
  "hexdigits = ''0123456789abcdef''"

subsection \<open>The bulk scan, as the specification describes it\<close>

text \<open>
  The change of the counters between two moments of a scan: what was added to
  \<open>scanned\<close> is what was added to the three outcome counters, none of which decreases.
\<close>

definition grows :: "stats \<Rightarrow> stats \<Rightarrow> bool" where
  "grows st st' =
     (scanned st' - scanned st
        = (generated st' - generated st) + (skipped st' - skipped st) + (failed st' - failed st)
      \<and> generated st \<le> generated st' \<and> skipped st \<le> skipped st' \<and> failed st \<le> failed st')"

text \<open>
  A file name the scan counts: its extension, in lower case, is one of the recognized
  video or image extensions.
\<close>

definition recognized :: "string \<Rightarrow> bool" where
  "recognized filename =
     (lower (suffix (Path filename))
        \<in> {''.mp4'', ''.mkv'', ''.avi'', ''.mov'', ''.webm'', ''.m4v'', ''.ts'',
            ''.jpg'', ''.jpeg'', ''.png'', ''.gif'', ''.webp''})"





text \<open>
  The same operating system, whose walks leave out every directory that has the cache
  subdirectory name as one of the components of its path.
\<close>

definition without_cache_subtrees :: "config \<Rightarrow> 'w os \<Rightarrow> 'w os" where
  "without_cache_subtrees c os =
     os\<lparr>os_walk := \<lambda>w start.
          filter (\<lambda>e. thumbnail_folder c \<notin> set (split_sep (fst e))) (os_walk os w start)\<rparr>"

subsection \<open>Drivers and observations for the renderer\<close>




text \<open>
  The tree of \<open>cached_tree\<close> after the video was modified: its thumbnail is now older.
\<close>

definition stale_tree :: "(string \<times> node) list" where
  "stale_tree =
     [(''m'', Dir [(''clip.mp4'', File 300),
                  (''.thumbnails'', Dir [(''clip_c3e051e0.jpg'', File 200)])])]"

subsection \<open>Identifiers and roots of the resolver examples\<close>

text \<open>The prefix of a structured identifier, as the source spells it.\<close>

definition namespace :: string where
  "namespace = ''media-source://media_source/''"

text \<open>A file under the default root and files under a configured root \<^verbatim>\<open>/alt\<close>.\<close>

definition resolve_tree :: "(string \<times> node) list" where
  "resolve_tree =
     [(''media'', Dir [(''cam'', Dir [(''a.mp4'', File 1)])]),
      (''alt'', Dir [(''cam'', Dir [(''a.mp4'', File 2), (''b.mp4'', File 3)])])]"

text \<open>
  A working directory (the root, in this small world) that holds a directory named
  \<^verbatim>\<open>media-source:\<close>, so that a structured identifier is also the relative path of a
  file that exists.
\<close>

definition uri_named_tree :: "(string \<times> node) list" where
  "uri_named_tree =
     [(''media-source:'', Dir [(''media_source'', Dir [(''x.mp4'', File 1)])])]"

subsection \<open>Freshness, as the specification describes it\<close>



section \<open>Properties\<close>

subsection \<open>The quality argument (C4)\<close>

lemma qv_floor:
  assumes "quality c \<le> 100"
  shows "qv c = (100 * (100 - quality c)) div 333"
proof -
  have nonneg: "(0::rat) \<le> of_int (100 - quality c) / (333 / 100)"
    using assms by simp
  have "of_int (100 - quality c) / (333 / 100 :: rat)
          = of_int (100 * (100 - quality c)) / of_int 333"
    by simp
  then have "\<lfloor>of_int (100 - quality c) / (333 / 100 :: rat)\<rfloor> = (100 * (100 - quality c)) div 333"
    by (simp only: floor_divide_of_int_eq)
  with nonneg show ?thesis
    by (simp add: qv_def py_int_def)
qed

text \<open>
  The quotient is computed by the source in double precision. Whatever value the
  floating-point division returns within a relative error of one millionth of the exact
  quotient (the error of one double division is far smaller), truncating it gives the
  integer the model computes: for the configured range the exact quotient keeps a
  distance of at least \<open>1 / 333\<close> from every integer it is not equal to.
\<close>

lemma quotient_off_integers:
  fixes n :: int
  assumes "0 < n" and "n \<le> 90"
  shows "1 \<le> (100 * n) mod 333" and "(100 * n) mod 333 \<le> 332"
proof -
  have "\<not> 333 dvd 100 * n"
  proof
    assume "333 dvd 100 * n"
    then have "333 dvd 10 * (100 * n)" by (rule dvd_mult)
    moreover have "(333::int) dvd 333 * (3 * n)" by simp
    ultimately have "333 dvd 10 * (100 * n) - 333 * (3 * n)" by (rule dvd_diff)
    then have "333 dvd n" by simp
    with assms show False by (auto dest: zdvd_imp_le)
  qed
  then have "(100 * n) mod 333 \<noteq> 0" by (simp add: dvd_eq_mod_eq_0)
  moreover have "0 \<le> (100 * n) mod 333" by simp
  ultimately show "1 \<le> (100 * n) mod 333" by linarith
  show "(100 * n) mod 333 \<le> 332"
    using pos_mod_bound [of 333 "100 * n"] by linarith
qed

lemma split_quotient:
  fixes a k r :: int
  assumes "100 * a = 333 * k + r"
  shows "(of_int a / (333 / 100) :: rat) = of_int k + of_int r / 333"
proof -
  from assms have "(of_int (100 * a) :: rat) = of_int (333 * k + r)" by (simp only:)
  then have "100 * (of_int a :: rat) = 333 * of_int k + of_int r" by simp
  then show ?thesis by (simp add: field_simps)
qed

lemma qv_float_margin:
  fixes x :: rat
  assumes q: "10 \<le> quality c" "quality c \<le> 100"
    and x: "\<bar>x - of_int (100 - quality c) / (333 / 100)\<bar>
              \<le> of_int (100 - quality c) / (333 / 100) / 1000000"
  shows "py_int x = qv c"
proof -
  define n where "n = 100 - quality c"
  define k where "k = (100 * n) div 333"
  define r where "r = (100 * n) mod 333"
  define e :: rat where "e = of_int n / (333 / 100)"
  have qv: "qv c = k" using qv_floor [OF q(2)] by (simp add: k_def n_def)
  from x have x': "\<bar>x - e\<bar> \<le> e / 1000000" by (simp add: e_def n_def)
  have n0: "0 \<le> n" "n \<le> 90" using q by (simp_all add: n_def)
  show ?thesis
  proof (cases "n = 0")
    case True
    then have "e = 0" by (simp add: e_def)
    with x' have "x = 0" by simp
    moreover from True have "k = 0" by (simp add: k_def)
    ultimately show ?thesis using qv by (simp add: py_int_def)
  next
    case False
    with n0 have n: "0 < n" "n \<le> 90" by linarith+
    from quotient_off_integers [OF n] have r: "1 \<le> r" "r \<le> 332" by (simp_all add: r_def)
    have "100 * n = 333 * k + r" by (simp add: k_def r_def)
    from split_quotient [OF this] have e: "e = of_int k + of_int r / 333" by (simp add: e_def)
    have r1: "(1::rat) \<le> of_int r" using r(1) by linarith
    have r2: "(of_int r :: rat) \<le> 332" using r(2) by linarith
    have nr: "(of_int n :: rat) \<le> 90" using n(2) by linarith
    have np: "(0::rat) < of_int n" using n(1) by linarith
    have "e = of_int n * (100 / 333)" by (simp add: e_def)
    with nr np have eb: "0 < e" "e \<le> 28" by simp_all
    from x' have lo: "e - e / 1000000 \<le> x" and hi: "x \<le> e + e / 1000000"
      by linarith+
    have f1: "1 / 333 \<le> of_int r / (333::rat)" using r1 by simp
    have f2: "of_int r / (333::rat) \<le> 332 / 333" using r2 by simp
    have "of_int k \<le> x" using lo e f1 eb by linarith
    moreover have "x < of_int k + 1" using hi e f2 eb by linarith
    ultimately have "\<lfloor>x\<rfloor> = k" by (simp add: floor_unique)
    moreover have "0 \<le> x" using lo eb by linarith
    ultimately show ?thesis using qv by (simp add: py_int_def)
  qed
qed

text \<open>
  C4, as the code has it. For every configured quality in 10..100 the value after
  \<^verbatim>\<open>-q:v\<close>, in the video and in the image command line, is \<^verbatim>\<open>(100 - quality) / 3.33\<close>
  truncated to an integer (\<^verbatim>\<open>int(...)\<close>), that is its floor \<open>100 * (100 - quality) div 333\<close>;
  it is not rounded to the nearest integer.
\<close>

theorem qv_truncates:
  assumes "10 \<le> quality c" and "quality c \<le> 100"
  shows "qv c = \<lfloor>of_int (100 - quality c) / (333 / 100 :: rat)\<rfloor>
       \<and> qv c = (100 * (100 - quality c)) div 333
       \<and> drop 10 (video_cmd c video_path thumb_path) = [''-q:v'', str_int (qv c), str thumb_path]
       \<and> drop 6 (image_cmd c image_path thumb_path) = [''-q:v'', str_int (qv c), str thumb_path]"
proof -
  have "(0::rat) \<le> of_int (100 - quality c) / (333 / 100)"
    using assms by simp
  then have "qv c = \<lfloor>of_int (100 - quality c) / (333 / 100 :: rat)\<rfloor>"
    by (simp add: qv_def py_int_def)
  moreover have "qv c = (100 * (100 - quality c)) div 333"
    using assms(2) by (rule qv_floor)
  moreover have "drop 10 (video_cmd c video_path thumb_path) = [''-q:v'', str_int (qv c), str thumb_path]"
    by (simp add: video_cmd_def)
  moreover have "drop 6 (image_cmd c image_path thumb_path) = [''-q:v'', str_int (qv c), str thumb_path]"
    by (simp add: image_cmd_def)
  ultimately show ?thesis by blast
qed

text \<open>At quality 95 the command line carries \<^verbatim>\<open>-q:v 1\<close>.\<close>

theorem qv_truncates_witness:
  "qv (example_config\<lparr>quality := 95\<rparr>) = 1
   \<and> drop 10 (video_cmd (example_config\<lparr>quality := 95\<rparr>) ''/m/clip.mp4''
        (Path ''/m/.thumbnails/clip_c3e051e0.jpg''))
       = [''-q:v'', ''1'', ''/m/.thumbnails/clip_c3e051e0.jpg'']"
proof -
  let ?c = "example_config\<lparr>quality := 95\<rparr>"
  let ?t = "Path ''/m/.thumbnails/clip_c3e051e0.jpg''"
  have h1: "10 \<le> quality ?c" by simp
  have h2: "quality ?c \<le> 100" by simp
  note inst = qv_truncates [OF h1 h2, of "''/m/clip.mp4''" ?t]
  from inst have "qv ?c = (100 * (100 - quality ?c)) div 333" by blast
  then have q: "qv ?c = 1" by simp
  have s: "str_int 1 = ''1''" by code_simp
  have p: "str ?t = ''/m/.thumbnails/clip_c3e051e0.jpg''" by code_simp
  from inst have "drop 10 (video_cmd ?c ''/m/clip.mp4'' ?t) = [''-q:v'', str_int (qv ?c), str ?t]"
    by blast
  with q s p show ?thesis by simp
qed

text \<open>
  The claim as stated fails at quality 95: \<open>5 / 3.33\<close> is about 1.5015, which the code
  truncates to 1 and rounding takes to 2.
\<close>

theorem qv_round_counterexample:
  "qv (example_config\<lparr>quality := 95\<rparr>) = 1 \<and> spec_round_qv (example_config\<lparr>quality := 95\<rparr>) = 2"
  by code_simp

subsection \<open>Parsing and joining paths\<close>

lemma split_sep_nonempty: "split_sep s \<noteq> []"
  by (induction s) (auto split: list.splits)

lemma split_sep_no_sep: "x \<in> set (split_sep s) \<Longrightarrow> CHR ''/'' \<notin> set x"
  by (induction s arbitrary: x) (auto split: list.splits if_splits)

lemma split_sep_append: "split_sep (a @ CHR ''/'' # b) = split_sep a @ split_sep b"
  by (induction a) (auto split: list.splits simp: split_sep_nonempty)

lemma split_sep_plain: "CHR ''/'' \<notin> set x \<Longrightarrow> split_sep x = [x]"
  by (induction x) (auto split: list.splits)

lemma split_join: "xs \<noteq> [] \<Longrightarrow> \<forall>x\<in>set xs. CHR ''/'' \<notin> set x \<Longrightarrow> split_sep (join_sep xs) = xs"
proof (induction xs rule: join_sep.induct)
  case 1 then show ?case by simp
next
  case (2 x) then show ?case by (simp add: split_sep_plain)
next
  case (3 x y ys)
  then show ?case by (simp add: split_sep_append split_sep_plain)
qed

lemma splitroot_root: "fst (splitroot s) \<in> {[], ''/'', ''//''}"
  by (cases s rule: list.exhaust; cases "tl s" rule: list.exhaust) (auto simp: splitroot_def)

lemma wf_Path: "wf_path (Path s)"
  using splitroot_root [of s]
  by (auto simp: wf_path_def Path_def plain_def split: prod.splits dest: split_sep_no_sep)

lemma wf_parent: "wf_path d \<Longrightarrow> wf_path (parent d)"
  by (auto simp: wf_path_def parent_def dest: in_set_butlastD)

lemma plain_ends: "plain x \<Longrightarrow> x \<noteq> [] \<and> last x \<noteq> CHR ''/'' \<and> hd x \<noteq> CHR ''/''"
  unfolding plain_def by (metis hd_in_set last_in_set)

lemma join_sep_last:
  "xs \<noteq> [] \<Longrightarrow> \<forall>x\<in>set xs. plain x \<Longrightarrow>
     join_sep xs \<noteq> [] \<and> last (join_sep xs) \<noteq> CHR ''/'' \<and> hd (join_sep xs) \<noteq> CHR ''/''"
proof (induction xs rule: join_sep.induct)
  case 1 then show ?case by simp
next
  case (2 x) then show ?case by (simp add: plain_ends)
next
  case (3 x y ys)
  then show ?case using plain_ends [of x] by (cases x) auto
qed

lemma splitroot_rel:
  assumes "r \<in> {[], ''/'', ''//''}" and "rel \<noteq> []" and "hd rel \<noteq> CHR ''/''"
  shows "splitroot (r @ rel) = (r, rel)"
  using assms by (cases rel) (auto simp: splitroot_def)

lemma joinpath_plain:
  assumes "wf_path d" and "plain n"
  shows "joinpath d n = PurePath (root d) (tail d @ [n])"
proof (cases "tail d = []")
  case True
  have n: "n \<noteq> []" "hd n \<noteq> CHR ''/''" "\<not> startswith n ''/''"
    using assms(2) by (cases n; auto simp: plain_def)+
  have r: "root d \<in> {[], ''/'', ''//''}" using assms(1) by (simp add: wf_path_def)
  have "os_path_join (format_parts d) n = root d @ n"
    using True n r by (auto simp: os_path_join_def format_parts_def)
  moreover have "splitroot (root d @ n) = (root d, n)"
    using r n by (intro splitroot_rel) auto
  moreover have "split_sep n = [n]" using assms(2) by (simp add: plain_def split_sep_plain)
  ultimately show ?thesis
    using True assms(2) by (simp add: joinpath_def Path_def plain_def)
next
  case False
  have pl: "\<forall>x\<in>set (tail d). plain x" using assms(1) by (simp add: wf_path_def)
  have r: "root d \<in> {[], ''/'', ''//''}" using assms(1) by (simp add: wf_path_def)
  note j = join_sep_last [OF False pl]
  have n: "\<not> startswith n ''/''"
    using assms(2) by (cases n; auto simp: plain_def)
  have "os_path_join (format_parts d) n = root d @ (join_sep (tail d) @ CHR ''/'' # n)"
    using j n by (auto simp: os_path_join_def format_parts_def)
  moreover have "splitroot (root d @ (join_sep (tail d) @ CHR ''/'' # n)) = (root d, join_sep (tail d) @ CHR ''/'' # n)"
    using r j by (intro splitroot_rel) auto
  moreover have "split_sep (join_sep (tail d) @ CHR ''/'' # n) = tail d @ [n]"
    using False pl assms(2) by (simp add: split_sep_append split_join plain_def split_sep_plain)
  ultimately show ?thesis
    using pl assms(2) by (auto simp: joinpath_def Path_def plain_def filter_id_conv)
qed

lemma name_no_sep: "CHR ''/'' \<notin> set (name (Path s))"
  using wf_Path [of s] by (auto simp: name_def wf_path_def plain_def)

lemma stem_subset: "set (stem p) \<subseteq> set (name p)"
  by (auto simp: stem_def split: option.splits dest: in_set_takeD)

lemma thumb_name_plain:
  assumes "CHR ''/'' \<notin> set h"
  shows "plain (stem (Path s) @ ''_'' @ h @ ''.jpg'')"
  using assms name_no_sep [of s] stem_subset [of "Path s"]
  by (auto simp: plain_def append_eq_Cons_conv)

subsection \<open>The cache path (C2)\<close>

text \<open>
  C2. The cache path of a source path is a function of the source path, the cache
  subdirectory name and the digest function alone: no other configuration field, no state
  and no world enters it, so every call gives the same path. Its parent is the source's
  parent directory joined with the cache subdirectory name, and its file name is the
  source's stem, an underscore, the first 8 hexadecimal characters of the MD5 digest of
  the source path string, and \<^verbatim>\<open>.jpg\<close>. The hypotheses say that the digest function
  returns 32 hexadecimal digits, as \<^verbatim>\<open>hexdigest()\<close> does.
\<close>

theorem cache_path_shape:
  assumes hex: "set (md5_hexdigest os p) \<subseteq> set hexdigits"
    and len: "length (md5_hexdigest os p) = 32"
    and same_folder: "thumbnail_folder c' = thumbnail_folder c"
    and same_md5: "md5_hexdigest os' = md5_hexdigest os"
  shows "parent (get_thumbnail_path os c p) = joinpath (parent (Path p)) (thumbnail_folder c)
       \<and> name (get_thumbnail_path os c p)
           = stem (Path p) @ ''_'' @ take 8 (md5_hexdigest os p) @ ''.jpg''
       \<and> length (take 8 (md5_hexdigest os p)) = 8
       \<and> set (take 8 (md5_hexdigest os p)) \<subseteq> set hexdigits
       \<and> get_thumbnail_path os' c' p = get_thumbnail_path os c p"
proof -
  let ?h = "take 8 (md5_hexdigest os p)"
  let ?n = "stem (Path p) @ ''_'' @ ?h @ ''.jpg''"
  let ?d = "joinpath (parent (Path p)) (thumbnail_folder c)"
  have hsub: "set ?h \<subseteq> set hexdigits"
    using hex by (meson in_set_takeD subset_iff)
  then have "CHR ''/'' \<notin> set ?h"
    by (auto simp: hexdigits_def)
  then have pl: "plain ?n" by (rule thumb_name_plain)
  have wf: "wf_path ?d" by (simp add: joinpath_def wf_Path)
  have eq: "get_thumbnail_path os c p = PurePath (root ?d) (tail ?d @ [?n])"
    using joinpath_plain [OF wf pl] by (simp add: get_thumbnail_path_def Let_def)
  have "parent (get_thumbnail_path os c p) = ?d"
    by (simp add: eq parent_def)
  moreover have "name (get_thumbnail_path os c p) = ?n"
    by (simp add: eq name_def)
  moreover have "length ?h = 8" using len by simp
  moreover have "get_thumbnail_path os' c' p = get_thumbnail_path os c p"
    using same_folder same_md5 by (simp add: get_thumbnail_path_def)
  ultimately show ?thesis using hsub by blast
qed

text \<open>The cache path of \<^verbatim>\<open>/media/cam/clip.mp4\<close> with the default subdirectory name.\<close>

theorem cache_path_shape_witness:
  "str (parent (get_thumbnail_path (tree_os no_tool) example_config ''/media/cam/clip.mp4''))
     = ''/media/cam/.thumbnails''
   \<and> name (get_thumbnail_path (tree_os no_tool) example_config ''/media/cam/clip.mp4'')
     = ''clip_352b2d8a.jpg''
   \<and> get_thumbnail_path (tree_os exit0_tool) (example_config\<lparr>quality := 10\<rparr>) ''/media/cam/clip.mp4''
     = get_thumbnail_path (tree_os no_tool) example_config ''/media/cam/clip.mp4''"
proof -
  let ?os = "tree_os no_tool" and ?c = example_config and ?p = "''/media/cam/clip.mp4''"
  have m: "md5_hexdigest ?os ?p = ''352b2d8a81f317aa30cae48dac6e5a5c''" by code_simp
  have h1: "set (md5_hexdigest ?os ?p) \<subseteq> set hexdigits" unfolding m by code_simp
  have h2: "length (md5_hexdigest ?os ?p) = 32" unfolding m by simp
  have h3: "thumbnail_folder (example_config\<lparr>quality := 10\<rparr>) = thumbnail_folder ?c" by simp
  have h4: "md5_hexdigest (tree_os exit0_tool) = md5_hexdigest ?os" by (simp add: tree_os_def)
  note inst = cache_path_shape [OF h1 h2 h3 h4]
  have a: "str (joinpath (parent (Path ?p)) (thumbnail_folder ?c)) = ''/media/cam/.thumbnails''"
    by code_simp
  have b: "stem (Path ?p) @ ''_'' @ take 8 (md5_hexdigest ?os ?p) @ ''.jpg'' = ''clip_352b2d8a.jpg''"
    by code_simp
  from inst a b show ?thesis by simp
qed

subsection \<open>One pass of the scan loops\<close>

lemma recognized_iff:
  "recognized f \<longleftrightarrow>
     \<not> (lower (suffix (Path f)) \<notin> set VIDEO_EXTENSIONS \<and> lower (suffix (Path f)) \<notin> set IMAGE_EXTENSIONS)"
  by (auto simp: recognized_def VIDEO_EXTENSIONS_def IMAGE_EXTENSIONS_def)

lemma render_and_count_step:
  assumes "render_and_count os c ext file_path thumb_path st s = (Inr st', s')"
  shows "st' = st\<lparr>generated := generated st + 1\<rparr> \<or> st' = st\<lparr>failed := failed st + 1\<rparr>"
  using assms unfolding render_and_count_def
  by (auto split: prod.splits sum.splits if_splits)

lemma scan_file_step:
  assumes "scan_file os c walk_root filename st s = (Inr st', s')"
  shows "(\<not> recognized filename \<and> st' = st \<and> s' = s)
       \<or> (recognized filename
          \<and> (st' = st\<lparr>scanned := scanned st + 1, skipped := skipped st + 1\<rparr> \<and> s' = s
             \<or> st' = st\<lparr>scanned := scanned st + 1, generated := generated st + 1\<rparr>
             \<or> st' = st\<lparr>scanned := scanned st + 1, failed := failed st + 1\<rparr>))"
proof (cases "recognized filename")
  case False
  then show ?thesis using assms by (simp add: scan_file_def recognized_iff Let_def)
next
  case True
  let ?st1 = "st\<lparr>scanned := scanned st + 1\<rparr>"
  let ?ext = "lower (suffix (Path filename))"
  let ?fp = "os_path_join walk_root filename"
  let ?tp = "get_thumbnail_path os c ?fp"
  from True assms
  have "(st' = ?st1\<lparr>skipped := skipped ?st1 + 1\<rparr> \<and> s' = s)
        \<or> render_and_count os c ?ext ?fp ?tp ?st1 s = (Inr st', s')"
    by (auto simp: scan_file_def recognized_iff Let_def split: if_splits sum.splits)
  then show ?thesis
  proof
    assume "st' = ?st1\<lparr>skipped := skipped ?st1 + 1\<rparr> \<and> s' = s"
    then show ?thesis using True by simp
  next
    assume "render_and_count os c ?ext ?fp ?tp ?st1 s = (Inr st', s')"
    from render_and_count_step [OF this] show ?thesis using True by auto
  qed
qed

lemma grows_refl: "grows st st"
  by (simp add: grows_def)

lemma grows_trans: "grows a b \<Longrightarrow> grows b c \<Longrightarrow> grows a c"
  by (auto simp: grows_def)

lemma scan_file_grows:
  assumes "scan_file os c walk_root filename st s = (Inr st', s')"
  shows "grows st st'"
  using scan_file_step [OF assms] by (auto simp: grows_def)


lemma scan_files_grows:
  "scan_files os c walk_root files st s = (Inr st', s') \<Longrightarrow> grows st st'"
proof (induction files arbitrary: st s)
  case Nil
  then show ?case by (simp add: grows_refl)
next
  case (Cons f files)
  then obtain st1 s1 where 1: "scan_file os c walk_root f st s = (Inr st1, s1)"
    and 2: "scan_files os c walk_root files st1 s1 = (Inr st', s')"
    by (auto split: prod.splits sum.splits)
  from scan_file_grows [OF 1] Cons.IH [OF 2] show ?case by (rule grows_trans)
qed


lemma scan_walk_grows:
  "scan_walk os c entries st s = (Inr st', s') \<Longrightarrow> grows st st'"
proof (induction entries arbitrary: st s)
  case Nil
  then show ?case by (simp add: grows_refl)
next
  case (Cons e entries)
  obtain r ds fs where e: "e = (r, ds, fs)" by (cases e) auto
  show ?case
  proof (cases "contains r (thumbnail_folder c)")
    case True
    with Cons e show ?thesis by simp
  next
    case False
    with Cons.prems e obtain st1 s1 where 1: "scan_files os c r fs st s = (Inr st1, s1)"
      and 2: "scan_walk os c entries st1 s1 = (Inr st', s')"
      by (auto split: prod.splits sum.splits)
    from scan_files_grows [OF 1] Cons.IH [OF 2] show ?thesis by (rule grows_trans)
  qed
qed


lemma scan_paths_grows:
  "scan_paths os c paths st s = (Inr st', s') \<Longrightarrow> grows st st'"
proof (induction paths arbitrary: st s)
  case Nil
  then show ?case by (simp add: grows_refl)
next
  case (Cons p paths)
  show ?case
  proof (cases "os_path_exists os (world s) p")
    case False
    with Cons show ?thesis by simp
  next
    case True
    with Cons.prems obtain st1 s1
      where 1: "scan_walk os c (os_walk os (world s) p) st s = (Inr st1, s1)"
      and 2: "scan_paths os c paths st1 s1 = (Inr st', s')"
      by (auto split: prod.splits sum.splits)
    from scan_walk_grows [OF 1] Cons.IH [OF 2] show ?thesis by (rule grows_trans)
  qed
qed

subsection \<open>The walk and the cache subdirectories\<close>

lemma startswith_first_component: "startswith s (hd (split_sep s))"
  by (induction s) (auto split: list.splits)

lemma startswith_contains: "startswith s x \<Longrightarrow> contains s x"
  by (cases s) (auto elim: startswith.elims)

lemma component_contains: "x \<in> set (split_sep r) \<Longrightarrow> contains r x"
proof (induction r arbitrary: x)
  case Nil
  then show ?case by simp
next
  case (Cons a r)
  show ?case
  proof (cases "a = CHR ''/''")
    case True
    with Cons show ?thesis by auto
  next
    case False
    obtain w ws where sp: "split_sep r = w # ws"
      using split_sep_nonempty [of r] by (cases "split_sep r") auto
    with False Cons.prems have "x = a # w \<or> x \<in> set ws" by simp
    then show ?thesis
    proof
      assume "x = a # w"
      moreover have "startswith r w" using startswith_first_component [of r] sp by simp
      ultimately show ?thesis by simp
    next
      assume "x \<in> set ws"
      then have "contains r x" using Cons.IH sp by simp
      then show ?thesis by simp
    qed
  qed
qed

lemma scan_walk_pruned:
  "scan_walk os c (filter (\<lambda>e. thumbnail_folder c \<notin> set (split_sep (fst e))) entries) st s
     = scan_walk os c entries st s"
proof (induction entries arbitrary: st s)
  case Nil
  then show ?case by simp
next
  case (Cons e entries)
  obtain r ds fs where e: "e = (r, ds, fs)" by (cases e) auto
  show ?case
  proof (cases "thumbnail_folder c \<in> set (split_sep r)")
    case True
    then have "contains r (thumbnail_folder c)" by (rule component_contains)
    with True e Cons.IH show ?thesis by simp
  next
    case False
    with e Cons.IH show ?thesis by (simp split: prod.splits sum.splits)
  qed
qed

lemma fields_walk_irrelevant:
  "subprocess (os\<lparr>os_walk := f\<rparr>) = subprocess os"
  "path_exists (os\<lparr>os_walk := f\<rparr>) = path_exists os"
  "mkdir (os\<lparr>os_walk := f\<rparr>) = mkdir os"
  "os_path_exists (os\<lparr>os_walk := f\<rparr>) = os_path_exists os"
  "stat_mtime (os\<lparr>os_walk := f\<rparr>) = stat_mtime os"
  "md5_hexdigest (os\<lparr>os_walk := f\<rparr>) = md5_hexdigest os"
  by simp_all

lemma run_walk_irrelevant: "run (os\<lparr>os_walk := f\<rparr>) cmd t s = run os cmd t s"
  unfolding run_def fields_walk_irrelevant by (rule refl)

lemma check_walk_irrelevant: "async_check_ffmpeg (os\<lparr>os_walk := f\<rparr>) s = async_check_ffmpeg os s"
  unfolding async_check_ffmpeg_def run_walk_irrelevant by (rule refl)

lemma path_walk_irrelevant:
  "get_thumbnail_path (os\<lparr>os_walk := f\<rparr>) c p = get_thumbnail_path os c p"
  unfolding get_thumbnail_path_def fields_walk_irrelevant by (rule refl)

lemma video_walk_irrelevant:
  "generate_video_thumbnail (os\<lparr>os_walk := f\<rparr>) c v t s = generate_video_thumbnail os c v t s"
  unfolding generate_video_thumbnail_def run_walk_irrelevant check_walk_irrelevant
    fields_walk_irrelevant by (rule refl)

lemma image_walk_irrelevant:
  "generate_image_thumbnail (os\<lparr>os_walk := f\<rparr>) c v t s = generate_image_thumbnail os c v t s"
  unfolding generate_image_thumbnail_def run_walk_irrelevant check_walk_irrelevant
    fields_walk_irrelevant by (rule refl)

lemma scan_file_walk_irrelevant:
  "scan_file (os\<lparr>os_walk := f\<rparr>) c r x st s = scan_file os c r x st s"
  unfolding scan_file_def render_and_count_def path_walk_irrelevant
    video_walk_irrelevant image_walk_irrelevant fields_walk_irrelevant by (rule refl)

lemma scan_files_walk_irrelevant:
  "scan_files (os\<lparr>os_walk := f\<rparr>) c r files st s = scan_files os c r files st s"
  by (induction files arbitrary: st s)
    (simp_all add: scan_file_walk_irrelevant split: prod.splits sum.splits)

lemma scan_walk_walk_irrelevant:
  "scan_walk (os\<lparr>os_walk := f\<rparr>) c entries st s = scan_walk os c entries st s"
  by (induction entries arbitrary: st s)
    (auto simp: scan_files_walk_irrelevant split: prod.splits sum.splits)

lemma scan_paths_pruned:
  "scan_paths (without_cache_subtrees c os) c paths st s = scan_paths os c paths st s"
proof (induction paths arbitrary: st s)
  case Nil
  then show ?case by simp
next
  case (Cons p paths)
  have "scan_walk (without_cache_subtrees c os) c
          (os_walk (without_cache_subtrees c os) (world s) p) st s
        = scan_walk os c (os_walk os (world s) p) st s"
    by (simp add: without_cache_subtrees_def scan_walk_walk_irrelevant scan_walk_pruned)
  moreover have "os_path_exists (without_cache_subtrees c os) = os_path_exists os"
    by (simp add: without_cache_subtrees_def)
  ultimately show ?case using Cons.IH by (simp split: prod.splits sum.splits)
qed

subsection \<open>Cache subtrees and the scan (C3)\<close>

text \<open>
  A bulk scan passes over every directory of the walk whose path has the cache
  subdirectory name as one of its components: removing all those directories from what
  \<^verbatim>\<open>os.walk\<close> yields changes neither the returned statistics nor the state the scan
  leaves behind.
\<close>

lemma pruned_walk_same_scan:
  "async_generate_all_thumbnails (without_cache_subtrees c os) c path s
     = async_generate_all_thumbnails os c path s"
  by (simp add: async_generate_all_thumbnails_def scan_paths_pruned)

text \<open>
  With the default name \<^verbatim>\<open>.thumbnails\<close>, a tree with one video and the cache subdirectory
  holding its thumbnail: the walk lists the thumbnail, an image file, and the scan
  reports \<open>scanned = 1\<close>.
\<close>

lemma default_folder_isolated:
  "fst (async_generate_all_thumbnails (tree_os no_tool) example_config None (init_state cached_tree))
     = Inr \<lparr>scanned = 1, generated = 0, skipped = 1, failed = 0\<rparr>
   \<and> os_walk (tree_os no_tool) cached_tree ''/m''
       = [(''/m'', [''.thumbnails''], [''clip.mp4'']),
          (''/m/.thumbnails'', [], [''clip_c3e051e0.jpg''])]
   \<and> os_walk (without_cache_subtrees example_config (tree_os no_tool)) cached_tree ''/m''
       = [(''/m'', [''.thumbnails''], [''clip.mp4''])]"
  by code_simp

text \<open>
  C3. The claim has a tree of one video and its cache subdirectory report
  \<open>scanned = 1\<close>, the cache never being counted or processed again. The scan decides
  what to pass over by looking for the configured name, as a string, in the path of each
  directory of the walk. With the name configured as \<^verbatim>\<open>t/\<close> the thumbnail of
  \<^verbatim>\<open>/m/clip.mp4\<close> is kept at \<^verbatim>\<open>/m/t/clip_c3e051e0.jpg\<close>, the walk reaches the directory
  \<^verbatim>\<open>/m/t\<close>, whose path does not contain the string \<^verbatim>\<open>t/\<close>, and the thumbnail is counted
  as a source of its own: the scan reports \<open>scanned = 2\<close>, and renders a thumbnail of the
  thumbnail when the tool is there. With the name \<^verbatim>\<open>t\<close> the same tree gives
  \<open>scanned = 1\<close>.
\<close>

theorem cache_scanned_into_itself:
  "thumbnail_folder slash_config = ''t/''
   \<and> str (get_thumbnail_path (tree_os no_tool) slash_config ''/m/clip.mp4'')
       = ''/m/t/clip_c3e051e0.jpg''
   \<and> os_walk (tree_os no_tool) slash_tree ''/m''
       = [(''/m'', [''t''], [''clip.mp4'']), (''/m/t'', [], [''clip_c3e051e0.jpg''])]
   \<and> \<not> contains ''/m/t'' (thumbnail_folder slash_config)
   \<and> fst (async_generate_all_thumbnails (tree_os no_tool) slash_config None (init_state slash_tree))
       = Inr \<lparr>scanned = 2, generated = 0, skipped = 1, failed = 1\<rparr>
   \<and> fst (async_generate_all_thumbnails (tree_os exit0_tool) slash_config None (init_state slash_tree))
       = Inr \<lparr>scanned = 2, generated = 1, skipped = 1, failed = 0\<rparr>
   \<and> map (take 4)
        (spawned (snd (async_generate_all_thumbnails (tree_os exit0_tool) slash_config None
                         (init_state slash_tree))))
       = [[''ffmpeg'', ''-version''], [''ffmpeg'', ''-y'', ''-i'', ''/m/t/clip_c3e051e0.jpg'']]
   \<and> fst (async_generate_all_thumbnails (tree_os no_tool) (slash_config\<lparr>thumbnail_folder := ''t''\<rparr>)
             None (init_state slash_tree))
       = Inr \<lparr>scanned = 1, generated = 0, skipped = 1, failed = 0\<rparr>"
  by code_simp

subsection \<open>Lower case and extensions\<close>











lemma lower_take: "lower (take n s) = take n (lower s)"
  by (simp add: lower_def take_map)











subsection \<open>What the scan counts (C9)\<close>







subsection \<open>The counters balance (C10)\<close>

text \<open>
  C10. The statistics a bulk scan returns satisfy
  \<open>scanned = generated + skipped + failed\<close>, with no counter negative; every pass of the
  inner loop that returns leaves the counters as they are or adds one to \<open>scanned\<close> and
  one to exactly one of \<open>skipped\<close>, \<open>generated\<close>, \<open>failed\<close>; and the counters start
  from zero: with nothing to scan, the scan returns four zeros.
\<close>

theorem stats_balance:
  "(async_generate_all_thumbnails os c path s = (Inr st, s') \<longrightarrow>
      scanned st = generated st + skipped st + failed st
      \<and> 0 \<le> generated st \<and> 0 \<le> skipped st \<and> 0 \<le> failed st)
   \<and> (scan_file os c walk_root filename st0 s0 = (Inr st1, s1) \<longrightarrow>
        st1 = st0
        \<or> st1 = st0\<lparr>scanned := scanned st0 + 1, skipped := skipped st0 + 1\<rparr>
        \<or> st1 = st0\<lparr>scanned := scanned st0 + 1, generated := generated st0 + 1\<rparr>
        \<or> st1 = st0\<lparr>scanned := scanned st0 + 1, failed := failed st0 + 1\<rparr>)
   \<and> (media_paths c = [] \<longrightarrow>
        fst (async_generate_all_thumbnails os c None s)
          = Inr \<lparr>scanned = 0, generated = 0, skipped = 0, failed = 0\<rparr>)"
proof (intro conjI impI)
  let ?z = "\<lparr>scanned = 0, generated = 0, skipped = 0, failed = 0\<rparr>"
  assume "async_generate_all_thumbnails os c path s = (Inr st, s')"
  then obtain ps s1 where "scan_paths os c ps ?z s = (Inr st, s1)"
    by (auto simp: async_generate_all_thumbnails_def Let_def split: prod.splits sum.splits)
  from scan_paths_grows [OF this]
  show "scanned st = generated st + skipped st + failed st" 
    and "0 \<le> generated st" and "0 \<le> skipped st" and "0 \<le> failed st"
    by (simp_all add: grows_def)
next
  assume "scan_file os c walk_root filename st0 s0 = (Inr st1, s1)"
  from scan_file_step [OF this]
  show "st1 = st0
        \<or> st1 = st0\<lparr>scanned := scanned st0 + 1, skipped := skipped st0 + 1\<rparr>
        \<or> st1 = st0\<lparr>scanned := scanned st0 + 1, generated := generated st0 + 1\<rparr>
        \<or> st1 = st0\<lparr>scanned := scanned st0 + 1, failed := failed st0 + 1\<rparr>"
    by blast
next
  assume "media_paths c = []"
  then show "fst (async_generate_all_thumbnails os c None s)
          = Inr \<lparr>scanned = 0, generated = 0, skipped = 0, failed = 0\<rparr>"
    by (simp add: async_generate_all_thumbnails_def Let_def)
qed

text \<open>
  A scan of the four-file directory with a tool that exits with code 0, one pass of its
  loop, and a scan with no media root.
\<close>

theorem stats_balance_witness:
  "fst (async_generate_all_thumbnails (tree_os exit0_tool) example_config None (init_state mixed_tree))
     = Inr \<lparr>scanned = 2, generated = 2, skipped = 0, failed = 0\<rparr>
   \<and> fst (scan_file (tree_os exit0_tool) example_config ''/m'' ''movie.mp4''
           \<lparr>scanned = 0, generated = 0, skipped = 0, failed = 0\<rparr> (init_state mixed_tree))
     = Inr \<lparr>scanned = 1, generated = 1, skipped = 0, failed = 0\<rparr>
   \<and> fst (async_generate_all_thumbnails (tree_os exit0_tool) (example_config\<lparr>media_paths := []\<rparr>)
           None (init_state mixed_tree))
     = Inr \<lparr>scanned = 0, generated = 0, skipped = 0, failed = 0\<rparr>"
proof -
  let ?os = "tree_os exit0_tool" and ?c = example_config and ?s = "init_state mixed_tree"
  let ?z = "\<lparr>scanned = 0, generated = 0, skipped = 0, failed = 0\<rparr>"
  let ?st = "\<lparr>scanned = 2, generated = 2, skipped = 0, failed = 0\<rparr>"
  let ?st1 = "\<lparr>scanned = 1, generated = 1, skipped = 0, failed = 0\<rparr>"
  let ?run = "async_generate_all_thumbnails ?os ?c None ?s"
  let ?one = "scan_file ?os ?c ''/m'' ''movie.mp4'' ?z ?s"
  have r: "fst ?run = Inr ?st" by code_simp
  then have e: "?run = (Inr ?st, snd ?run)" by (metis prod.collapse)
  have r1: "fst ?one = Inr ?st1" by code_simp
  then have e1: "?one = (Inr ?st1, snd ?one)" by (metis prod.collapse)
  have m: "media_paths (?c\<lparr>media_paths := []\<rparr>) = []" by simp
  from stats_balance [of ?os ?c None ?s ?st "snd ?run" "''/m''" "''movie.mp4''" ?z ?s ?st1 "snd ?one"] e e1
  have "scanned ?st = generated ?st + skipped ?st + failed ?st" by blast
  from stats_balance [of ?os "?c\<lparr>media_paths := []\<rparr>" None ?s ?st "snd ?run" "''/m''" "''movie.mp4''" ?z ?s ?st1 "snd ?one"] m
  have "fst (async_generate_all_thumbnails ?os (?c\<lparr>media_paths := []\<rparr>) None ?s) = Inr ?z"
    by blast
  with r r1 show ?thesis by blast
qed

subsection \<open>The probe (C6)\<close>










subsection \<open>The outcome of a render (C7)\<close>







subsection \<open>The memoized mapping (C8)\<close>

text \<open>
  Nothing but the memoized check at the head of \<^verbatim>\<open>async_get_thumbnail\<close> reads the
  mapping: the methods below it carry it along unchanged.
\<close>

lemma run_cache:
  "run os cmd t (s\<lparr>cache := k\<rparr>) = (fst (run os cmd t s), (snd (run os cmd t s))\<lparr>cache := k\<rparr>)"
  by (simp add: run_def split: prod.splits)

lemma set_available_cache:
  "set_available b (s\<lparr>cache := k\<rparr>)
     = (fst (set_available b s), (snd (set_available b s))\<lparr>cache := k\<rparr>)"
  by (simp add: set_available_def emit_def)

lemma check_cache:
  "async_check_ffmpeg os (s\<lparr>cache := k\<rparr>)
     = (fst (async_check_ffmpeg os s), (snd (async_check_ffmpeg os s))\<lparr>cache := k\<rparr>)"
  by (cases "ffmpeg_available s"; cases "run os [''ffmpeg'', ''-version''] None s";
      cases "fst (run os [''ffmpeg'', ''-version''] None s)")
    (auto simp: async_check_ffmpeg_def run_cache set_available_cache)

lemma video_cache:
  "generate_video_thumbnail os c v t (s\<lparr>cache := k\<rparr>)
     = (fst (generate_video_thumbnail os c v t s),
        (snd (generate_video_thumbnail os c v t s))\<lparr>cache := k\<rparr>)"
proof -
  obtain r s1 where p: "async_check_ffmpeg os s = (r, s1)"
    by (cases "async_check_ffmpeg os s") auto
  then have p': "async_check_ffmpeg os (s\<lparr>cache := k\<rparr>) = (r, s1\<lparr>cache := k\<rparr>)"
    by (simp add: check_cache)
  obtain e w2 where m: "mkdir os (world s1) (str (parent t)) = (e, w2)"
    by (cases "mkdir os (world s1) (str (parent t))") auto
  obtain out s3 where q: "run os (video_cmd c v t) (Some 30) (s1\<lparr>world := w2\<rparr>) = (out, s3)"
    by (cases "run os (video_cmd c v t) (Some 30) (s1\<lparr>world := w2\<rparr>)") auto
  have q': "run os (video_cmd c v t) (Some 30) (s1\<lparr>cache := k, world := w2\<rparr>)
                  = (out, s3\<lparr>cache := k\<rparr>)"
    using q by (auto simp: run_def split: prod.splits)
  show ?thesis
    unfolding generate_video_thumbnail_def p p'
    using m q q'
    by (cases r; cases e; cases out) (auto simp: emit_def)
qed

lemma image_cache:
  "generate_image_thumbnail os c v t (s\<lparr>cache := k\<rparr>)
     = (fst (generate_image_thumbnail os c v t s),
        (snd (generate_image_thumbnail os c v t s))\<lparr>cache := k\<rparr>)"
proof -
  obtain r s1 where p: "async_check_ffmpeg os s = (r, s1)"
    by (cases "async_check_ffmpeg os s") auto
  then have p': "async_check_ffmpeg os (s\<lparr>cache := k\<rparr>) = (r, s1\<lparr>cache := k\<rparr>)"
    by (simp add: check_cache)
  obtain e w2 where m: "mkdir os (world s1) (str (parent t)) = (e, w2)"
    by (cases "mkdir os (world s1) (str (parent t))") auto
  obtain out s3 where q: "run os (image_cmd c v t) (Some 15) (s1\<lparr>world := w2\<rparr>) = (out, s3)"
    by (cases "run os (image_cmd c v t) (Some 15) (s1\<lparr>world := w2\<rparr>)") auto
  have q': "run os (image_cmd c v t) (Some 15) (s1\<lparr>cache := k, world := w2\<rparr>)
                  = (out, s3\<lparr>cache := k\<rparr>)"
    using q by (auto simp: run_def split: prod.splits)
  show ?thesis
    unfolding generate_image_thumbnail_def p p'
    using m q q'
    by (cases r; cases e; cases out) (auto simp: emit_def)
qed

lemma generate_for_lookup_cache:
  "fst (generate_for_lookup os c media_path actual_path thumb_path (s\<lparr>cache := k\<rparr>))
     = fst (generate_for_lookup os c media_path actual_path thumb_path s)
   \<and> clear_cache (snd (generate_for_lookup os c media_path actual_path thumb_path (s\<lparr>cache := k\<rparr>)))
     = clear_cache (snd (generate_for_lookup os c media_path actual_path thumb_path s))"
  unfolding generate_for_lookup_def video_cache image_cache
  by (cases "generate_video_thumbnail os c actual_path thumb_path s";
      cases "generate_image_thumbnail os c actual_path thumb_path s";
      cases "fst (generate_video_thumbnail os c actual_path thumb_path s)";
      cases "fst (generate_image_thumbnail os c actual_path thumb_path s)")
    (auto simp: clear_cache_def emit_def)

lemma lookup_resolved_cache:
  "fst (lookup_resolved os c media_path actual_path (s\<lparr>cache := k\<rparr>))
     = fst (lookup_resolved os c media_path actual_path s)
   \<and> clear_cache (snd (lookup_resolved os c media_path actual_path (s\<lparr>cache := k\<rparr>)))
     = clear_cache (snd (lookup_resolved os c media_path actual_path s))"
  using generate_for_lookup_cache [where os = os and c = c and media_path = media_path
      and actual_path = actual_path and s = s and k = k]
  by (auto simp: lookup_resolved_def Let_def clear_cache_def split: sum.splits)

lemma lookup_without_memo:
  assumes "memoized os s media_path = None" and "memoized os (s\<lparr>cache := k\<rparr>) media_path = None"
  shows "fst (async_get_thumbnail os c media_path (s\<lparr>cache := k\<rparr>))
           = fst (async_get_thumbnail os c media_path s)
       \<and> clear_cache (snd (async_get_thumbnail os c media_path (s\<lparr>cache := k\<rparr>)))
           = clear_cache (snd (async_get_thumbnail os c media_path s))"
  using assms lookup_resolved_cache [where os = os and c = c and media_path = media_path
      and s = s and k = k]
  by (auto simp: async_get_thumbnail_def clear_cache_def emit_def split: option.splits sum.splits)

text \<open>
  C8. When the identifier is in the memoized mapping and the mapped file exists, the
  lookup returns the mapped path and leaves the state as it is: nothing is run, and the
  answer is the same whatever the modification times are. When the mapped file no longer
  exists, the lookup gives what the full resolution gives, as if the entry were not
  there: the same result and, the mapping aside, the same state.
\<close>

theorem memo_fast_path:
  "(cache s media_path = Some t \<and> os_path_exists os (world s) t \<longrightarrow>
      async_get_thumbnail os c media_path s = (Inr (Some t), s)
      \<and> async_get_thumbnail (os\<lparr>stat_mtime := mtimes\<rparr>) c media_path s = (Inr (Some t), s))
   \<and> (cache s media_path = Some t \<and> \<not> os_path_exists os (world s) t \<longrightarrow>
      fst (async_get_thumbnail os c media_path s)
        = fst (async_get_thumbnail os c media_path (s\<lparr>cache := (cache s)(media_path := None)\<rparr>))
      \<and> clear_cache (snd (async_get_thumbnail os c media_path s))
        = clear_cache (snd (async_get_thumbnail os c media_path
            (s\<lparr>cache := (cache s)(media_path := None)\<rparr>))))"
proof (intro conjI impI)
  assume a: "cache s media_path = Some t \<and> os_path_exists os (world s) t"
  then show "async_get_thumbnail os c media_path s = (Inr (Some t), s)"
    by (simp add: async_get_thumbnail_def memoized_def)
  from a show "async_get_thumbnail (os\<lparr>stat_mtime := mtimes\<rparr>) c media_path s = (Inr (Some t), s)"
    by (simp add: async_get_thumbnail_def memoized_def)
next
  let ?k = "(cache s)(media_path := None)"
  assume a: "cache s media_path = Some t \<and> \<not> os_path_exists os (world s) t"
  then have 1: "memoized os s media_path = None" by (simp add: memoized_def)
  have 2: "memoized os (s\<lparr>cache := ?k\<rparr>) media_path = None" by (simp add: memoized_def)
  from lookup_without_memo [OF 1 2]
  show "fst (async_get_thumbnail os c media_path s)
        = fst (async_get_thumbnail os c media_path (s\<lparr>cache := ?k\<rparr>))"
    and "clear_cache (snd (async_get_thumbnail os c media_path s))
        = clear_cache (snd (async_get_thumbnail os c media_path (s\<lparr>cache := ?k\<rparr>)))"
    by simp_all
qed

text \<open>
  A memoized thumbnail that is older than its source is returned as it is; a memoized
  path that is gone leads to resolution and a render.
\<close>

theorem memo_fast_path_witness:
  "async_get_thumbnail (tree_os exit0_tool) example_config ''/m/clip.mp4''
       ((init_state stale_tree)\<lparr>cache := [''/m/clip.mp4'' \<mapsto> ''/m/.thumbnails/clip_c3e051e0.jpg'']\<rparr>)
     = (Inr (Some ''/m/.thumbnails/clip_c3e051e0.jpg''),
        (init_state stale_tree)\<lparr>cache := [''/m/clip.mp4'' \<mapsto> ''/m/.thumbnails/clip_c3e051e0.jpg'']\<rparr>)
   \<and> stat_mtime (tree_os exit0_tool) stale_tree ''/m/.thumbnails/clip_c3e051e0.jpg'' = Inr 200
   \<and> stat_mtime (tree_os exit0_tool) stale_tree ''/m/clip.mp4'' = Inr 300
   \<and> fst (async_get_thumbnail (tree_os exit0_tool) example_config ''/m/clip.mp4''
       ((init_state stale_tree)\<lparr>cache := [''/m/clip.mp4'' \<mapsto> ''/m/.thumbnails/gone.jpg'']\<rparr>))
     = Inr (Some ''/m/.thumbnails/clip_c3e051e0.jpg'')
   \<and> length (spawned (snd (async_get_thumbnail (tree_os exit0_tool) example_config ''/m/clip.mp4''
       ((init_state stale_tree)\<lparr>cache := [''/m/clip.mp4'' \<mapsto> ''/m/.thumbnails/gone.jpg'']\<rparr>)))) = 2"
proof -
  let ?os = "tree_os exit0_tool" and ?c = example_config and ?id = "''/m/clip.mp4''"
  let ?t = "''/m/.thumbnails/clip_c3e051e0.jpg''" and ?g = "''/m/.thumbnails/gone.jpg''"
  let ?hit = "(init_state stale_tree)\<lparr>cache := [?id \<mapsto> ?t]\<rparr>"
  let ?gone = "(init_state stale_tree)\<lparr>cache := [?id \<mapsto> ?g]\<rparr>"
  let ?gone' = "?gone\<lparr>cache := (cache ?gone)(?id := None)\<rparr>"
  have h1: "cache ?hit ?id = Some ?t" by simp
  have h2: "os_path_exists ?os (world ?hit) ?t" by code_simp
  from memo_fast_path [where s = ?hit and media_path = ?id and t = ?t and os = ?os and c = ?c] h1 h2
  have 1: "async_get_thumbnail ?os ?c ?id ?hit = (Inr (Some ?t), ?hit)" by blast
  have 2: "stat_mtime ?os stale_tree ?t = Inr 200" by code_simp
  have 3: "stat_mtime ?os stale_tree ?id = Inr 300" by code_simp
  have g1: "cache ?gone ?id = Some ?g" by simp
  have g2: "\<not> os_path_exists ?os (world ?gone) ?g" by code_simp
  note inst = memo_fast_path [where s = ?gone and media_path = ?id and t = ?g and os = ?os and c = ?c]
  from inst g1 g2
  have f: "fst (async_get_thumbnail ?os ?c ?id ?gone) = fst (async_get_thumbnail ?os ?c ?id ?gone')"
    by blast
  from inst g1 g2
  have k: "clear_cache (snd (async_get_thumbnail ?os ?c ?id ?gone))
             = clear_cache (snd (async_get_thumbnail ?os ?c ?id ?gone'))"
    by blast
  have "fst (async_get_thumbnail ?os ?c ?id ?gone') = Inr (Some ?t)" by code_simp
  with f have 4: "fst (async_get_thumbnail ?os ?c ?id ?gone) = Inr (Some ?t)" by simp
  have "length (spawned (snd (async_get_thumbnail ?os ?c ?id ?gone'))) = 2" by code_simp
  moreover have "spawned (snd (async_get_thumbnail ?os ?c ?id ?gone))
                   = spawned (clear_cache (snd (async_get_thumbnail ?os ?c ?id ?gone)))"
    by (simp add: clear_cache_def)
  moreover have "spawned (snd (async_get_thumbnail ?os ?c ?id ?gone'))
                   = spawned (clear_cache (snd (async_get_thumbnail ?os ?c ?id ?gone')))"
    by (simp add: clear_cache_def)
  ultimately have 5: "length (spawned (snd (async_get_thumbnail ?os ?c ?id ?gone))) = 2"
    using k by simp
  from 1 2 3 4 5 show ?thesis by blast
qed

subsection \<open>Resolving identifiers (C5)\<close>

lemma startswith_append: "startswith (p @ rest) p"
  by (induction p) auto

lemma startswith_iff: "startswith s p \<longleftrightarrow> (\<exists>rest. s = p @ rest)"
proof (induction s p rule: startswith.induct)
  case (1 s) show ?case by simp
next
  case (2 c p) show ?case by simp
next
  case (3 x s c p) then show ?case by auto
qed

lemma replace_at_head:
  "replace ((c # cs) @ rest) (c # cs) new = new @ replace rest (c # cs) new"
  using startswith_append [of "c # cs" rest] by simp

lemma replace_absent:
  "\<not> contains s (c # cs) \<Longrightarrow> replace s (c # cs) new = s"
  by (induction s) auto

lemma strip_namespace:
  "\<not> contains rest namespace \<Longrightarrow> replace (namespace @ rest) namespace [] = rest"
proof -
  assume a: "\<not> contains rest namespace"
  obtain c cs where n: "namespace = c # cs" by (simp add: namespace_def)
  from a have "\<not> contains rest (c # cs)" by (simp add: n)
  then have "replace rest (c # cs) [] = rest" by (rule replace_absent)
  with replace_at_head [of c cs rest "[]"] show ?thesis by (simp add: n)
qed

text \<open>The loop over the roots, when every existence test returns.\<close>

lemma first_existing_find:
  assumes "\<forall>base \<in> set bases. \<not> isl (path_exists os w (str (joinpath (Path base) rel)))"
  shows "first_existing os w bases rel
           = Inr (map_option str
                   (find (\<lambda>p. path_exists os w (str p) = Inr True)
                      (map (\<lambda>base. joinpath (Path base) rel) bases)))"
  using assms
proof (induction bases)
  case Nil
  then show ?case by simp
next
  case (Cons b bases)
  then obtain found where f: "path_exists os w (str (joinpath (Path b) rel)) = Inr found"
    by (cases "path_exists os w (str (joinpath (Path b) rel))") auto
  with Cons show ?case by (cases found) (simp_all add: Let_def)
qed

lemma resolve_structured:
  assumes a: "\<not> contains rest namespace"
    and b: "\<forall>base \<in> set (''/media'' # media_paths c).
              \<not> isl (path_exists os w (str (joinpath (Path base) rel)))"
    and r: "rel = (if startswith rest ''local/'' then drop 6 rest else rest)"
  shows "resolve_media_path os c w (namespace @ rest)
           = Inr (map_option str
                   (find (\<lambda>p. path_exists os w (str p) = Inr True)
                      (map (\<lambda>base. joinpath (Path base) rel) (''/media'' # media_paths c))))"
proof -
  have s: "startswith (namespace @ rest) ''media-source://media_source/''"
    using startswith_append [of namespace rest] by (simp add: namespace_def)
  have p: "replace (namespace @ rest) ''media-source://media_source/'' [] = rest"
    using strip_namespace [OF a] by (simp add: namespace_def)
  have "resolve_media_path os c w (namespace @ rest) = first_existing os w (''/media'' # media_paths c) rel"
    unfolding resolve_media_path_def using s p r by (simp add: Let_def)
  with first_existing_find [OF b] show ?thesis by simp
qed

text \<open>
  C5, as the code has it. The structured form is recognized first, by its prefix. An
  identifier without the prefix is returned unchanged if it exists on disk and is not
  found otherwise, and this never raises. For an identifier with the prefix (and no
  further occurrence of the namespace string after it), the prefix and an optional
  leading \<^verbatim>\<open>local/\<close> are stripped, and the relative path is joined to \<^verbatim>\<open>/media\<close> first,
  then to each configured root in configured order; when the existence tests of these
  joins return, the first join that exists is returned, and when none exists the
  identifier is not found, without an exception.
\<close>

theorem resolve_order:
  "(\<not> startswith media_content_id namespace \<longrightarrow>
      resolve_media_path os c w media_content_id
        = Inr (if os_path_exists os w media_content_id then Some media_content_id else None))
   \<and> (\<not> contains rest namespace
       \<and> (\<forall>base \<in> set (''/media'' # media_paths c).
             \<not> isl (path_exists os w
                      (str (joinpath (Path base)
                             (if startswith rest ''local/'' then drop 6 rest else rest))))) \<longrightarrow>
      resolve_media_path os c w (namespace @ rest)
        = Inr (map_option str
                (find (\<lambda>p. path_exists os w (str p) = Inr True)
                   (map (\<lambda>base. joinpath (Path base)
                                   (if startswith rest ''local/'' then drop 6 rest else rest))
                        (''/media'' # media_paths c)))))
   \<and> (\<not> contains rest namespace
       \<and> (\<forall>base \<in> set (''/media'' # media_paths c).
             path_exists os w
               (str (joinpath (Path base)
                      (if startswith rest ''local/'' then drop 6 rest else rest))) = Inr False) \<longrightarrow>
      resolve_media_path os c w (namespace @ rest) = Inr None)"
proof (intro conjI impI)
  assume "\<not> startswith media_content_id namespace"
  then show "resolve_media_path os c w media_content_id
        = Inr (if os_path_exists os w media_content_id then Some media_content_id else None)"
    by (simp add: resolve_media_path_def namespace_def)
next
  let ?rel = "if startswith rest ''local/'' then drop 6 rest else rest"
  assume a: "\<not> contains rest namespace
       \<and> (\<forall>base \<in> set (''/media'' # media_paths c).
             \<not> isl (path_exists os w (str (joinpath (Path base) ?rel))))"
  then have a1: "\<not> contains rest namespace"
    and a2: "\<forall>base \<in> set (''/media'' # media_paths c).
               \<not> isl (path_exists os w (str (joinpath (Path base) ?rel)))"
    by blast+
  show "resolve_media_path os c w (namespace @ rest)
        = Inr (map_option str
                (find (\<lambda>p. path_exists os w (str p) = Inr True)
                   (map (\<lambda>base. joinpath (Path base) ?rel) (''/media'' # media_paths c))))"
    by (rule resolve_structured [OF a1 a2 refl])
next
  let ?rel = "if startswith rest ''local/'' then drop 6 rest else rest"
  assume a: "\<not> contains rest namespace
       \<and> (\<forall>base \<in> set (''/media'' # media_paths c).
             path_exists os w (str (joinpath (Path base) ?rel)) = Inr False)"
  then have a1: "\<not> contains rest namespace"
    and a3: "\<forall>base \<in> set (''/media'' # media_paths c).
               path_exists os w (str (joinpath (Path base) ?rel)) = Inr False"
    by blast+
  from a3 have a2: "\<forall>base \<in> set (''/media'' # media_paths c).
               \<not> isl (path_exists os w (str (joinpath (Path base) ?rel)))"
    by simp
  from a3 have "find (\<lambda>p. path_exists os w (str p) = Inr True)
                   (map (\<lambda>base. joinpath (Path base) ?rel) (''/media'' # media_paths c)) = None"
    by (auto simp: find_None_iff)
  with resolve_structured [OF a1 a2 refl]
  show "resolve_media_path os c w (namespace @ rest) = Inr None" by simp
qed

text \<open>
  With the configured root \<^verbatim>\<open>/alt\<close>: a file under both roots resolves under
  \<^verbatim>\<open>/media\<close>, a file under \<^verbatim>\<open>/alt\<close> only resolves there, a file under neither is not
  found; a literal path is returned if it exists.
\<close>

theorem resolve_order_witness:
  "resolve_media_path (tree_os no_tool) (example_config\<lparr>media_paths := [''/alt'']\<rparr>) resolve_tree
       ''media-source://media_source/local/cam/a.mp4'' = Inr (Some ''/media/cam/a.mp4'')
   \<and> resolve_media_path (tree_os no_tool) (example_config\<lparr>media_paths := [''/alt'']\<rparr>) resolve_tree
       ''media-source://media_source/cam/b.mp4'' = Inr (Some ''/alt/cam/b.mp4'')
   \<and> resolve_media_path (tree_os no_tool) (example_config\<lparr>media_paths := [''/alt'']\<rparr>) resolve_tree
       ''media-source://media_source/cam/c.mp4'' = Inr None
   \<and> resolve_media_path (tree_os no_tool) (example_config\<lparr>media_paths := [''/alt'']\<rparr>) resolve_tree
       ''/alt/cam/b.mp4'' = Inr (Some ''/alt/cam/b.mp4'')
   \<and> resolve_media_path (tree_os no_tool) (example_config\<lparr>media_paths := [''/alt'']\<rparr>) resolve_tree
       ''/alt/cam/c.mp4'' = Inr None"
proof -
  let ?os = "tree_os no_tool" and ?c = "example_config\<lparr>media_paths := [''/alt'']\<rparr>"
  let ?w = resolve_tree
  have n: "namespace @ r = ''media-source://media_source/'' @ r" for r
    by (simp add: namespace_def)
  have m: "media_paths ?c = [''/alt'']" by simp
  \<comment> \<open>under the default root and under the configured root: the default root wins\<close>
  have a0: "\<not> contains ''local/cam/a.mp4'' namespace" by code_simp
  have a1: "\<forall>base \<in> set (''/media'' # media_paths ?c).
             \<not> isl (path_exists ?os ?w
                      (str (joinpath (Path base)
                             (if startswith ''local/cam/a.mp4'' ''local/''
                              then drop 6 ''local/cam/a.mp4'' else ''local/cam/a.mp4''))))"
    unfolding m by code_simp
  have a2: "map_option str
            (find (\<lambda>p. path_exists ?os ?w (str p) = Inr True)
               (map (\<lambda>base. joinpath (Path base)
                               (if startswith ''local/cam/a.mp4'' ''local/''
                                then drop 6 ''local/cam/a.mp4'' else ''local/cam/a.mp4''))
                    [''/media'', ''/alt''])) = Some ''/media/cam/a.mp4''"
    by code_simp
  from resolve_order [where rest = "''local/cam/a.mp4''" and os = ?os and c = ?c and w = ?w] a0 a1
  have "resolve_media_path ?os ?c ?w (namespace @ ''local/cam/a.mp4'')
          = Inr (map_option str
            (find (\<lambda>p. path_exists ?os ?w (str p) = Inr True)
               (map (\<lambda>base. joinpath (Path base)
                               (if startswith ''local/cam/a.mp4'' ''local/''
                                then drop 6 ''local/cam/a.mp4'' else ''local/cam/a.mp4''))
                    (''/media'' # media_paths ?c))))"
    by blast
  with a2 have 1: "resolve_media_path ?os ?c ?w ''media-source://media_source/local/cam/a.mp4''
             = Inr (Some ''/media/cam/a.mp4'')"
    by (simp add: n)
  \<comment> \<open>under the configured root only\<close>
  have b0: "\<not> contains ''cam/b.mp4'' namespace" by code_simp
  have b1: "\<forall>base \<in> set (''/media'' # media_paths ?c).
             \<not> isl (path_exists ?os ?w
                      (str (joinpath (Path base)
                             (if startswith ''cam/b.mp4'' ''local/''
                              then drop 6 ''cam/b.mp4'' else ''cam/b.mp4''))))"
    unfolding m by code_simp
  have b2: "map_option str
            (find (\<lambda>p. path_exists ?os ?w (str p) = Inr True)
               (map (\<lambda>base. joinpath (Path base)
                               (if startswith ''cam/b.mp4'' ''local/''
                                then drop 6 ''cam/b.mp4'' else ''cam/b.mp4''))
                    [''/media'', ''/alt''])) = Some ''/alt/cam/b.mp4''"
    by code_simp
  from resolve_order [where rest = "''cam/b.mp4''" and os = ?os and c = ?c and w = ?w] b0 b1
  have "resolve_media_path ?os ?c ?w (namespace @ ''cam/b.mp4'')
          = Inr (map_option str
            (find (\<lambda>p. path_exists ?os ?w (str p) = Inr True)
               (map (\<lambda>base. joinpath (Path base)
                               (if startswith ''cam/b.mp4'' ''local/''
                                then drop 6 ''cam/b.mp4'' else ''cam/b.mp4''))
                    (''/media'' # media_paths ?c))))"
    by blast
  with b2 have 2: "resolve_media_path ?os ?c ?w ''media-source://media_source/cam/b.mp4''
             = Inr (Some ''/alt/cam/b.mp4'')"
    by (simp add: n)
  \<comment> \<open>under neither\<close>
  have c0: "\<not> contains ''cam/c.mp4'' namespace" by code_simp
  have c1: "\<forall>base \<in> set (''/media'' # media_paths ?c).
             path_exists ?os ?w
               (str (joinpath (Path base)
                      (if startswith ''cam/c.mp4'' ''local/''
                       then drop 6 ''cam/c.mp4'' else ''cam/c.mp4''))) = Inr False"
    unfolding m by code_simp
  from resolve_order [where rest = "''cam/c.mp4''" and os = ?os and c = ?c and w = ?w] c0 c1
  have "resolve_media_path ?os ?c ?w (namespace @ ''cam/c.mp4'') = Inr None"
    by blast
  then have 3: "resolve_media_path ?os ?c ?w ''media-source://media_source/cam/c.mp4'' = Inr None"
    by (simp add: n)
  \<comment> \<open>literal paths\<close>
  have d0: "\<not> startswith ''/alt/cam/b.mp4'' namespace" by code_simp
  have d1: "os_path_exists ?os ?w ''/alt/cam/b.mp4''" by code_simp
  from resolve_order [where media_content_id = "''/alt/cam/b.mp4''" and os = ?os and c = ?c and w = ?w]
    d0 d1
  have 4: "resolve_media_path ?os ?c ?w ''/alt/cam/b.mp4'' = Inr (Some ''/alt/cam/b.mp4'')"
    by simp
  have e0: "\<not> startswith ''/alt/cam/c.mp4'' namespace" by code_simp
  have e1: "\<not> os_path_exists ?os ?w ''/alt/cam/c.mp4''" by code_simp
  from resolve_order [where media_content_id = "''/alt/cam/c.mp4''" and os = ?os and c = ?c and w = ?w]
    e0 e1
  have 5: "resolve_media_path ?os ?c ?w ''/alt/cam/c.mp4'' = Inr None"
    by simp
  from 1 2 3 4 5 show ?thesis by blast
qed

text \<open>
  The claim as stated fails in two ways. It tests the literal path first: an identifier
  with the prefix that is also a path that exists is not returned unchanged, the
  structured branch is taken, and here it finds nothing. And it has resolution return
  not-found without an exception whenever no candidate exists: for a structured
  identifier whose name is longer than a file name may be, no candidate exists and the
  existence test of the first candidate raises.
\<close>

theorem resolve_literal_first_counterexample:
  "os_path_exists (tree_os no_tool) uri_named_tree ''media-source://media_source/x.mp4''
   \<and> resolve_media_path (tree_os no_tool) example_config uri_named_tree
        ''media-source://media_source/x.mp4'' = Inr None
   \<and> \<not> os_path_exists (tree_os no_tool) resolve_tree (''/media/'' @ replicate 256 (CHR ''a''))
   \<and> \<not> os_path_exists (tree_os no_tool) resolve_tree (''/m/'' @ replicate 256 (CHR ''a''))
   \<and> resolve_media_path (tree_os no_tool) example_config resolve_tree
        (''media-source://media_source/'' @ replicate 256 (CHR ''a''))
       = Inl (ENAMETOOLONG (''/media/'' @ replicate 256 (CHR ''a'')))"
  by code_simp

subsection \<open>The freshness decision (C1)\<close>





end
